theory Spec2Isabelle
  imports Main "HOL-Library.Sublist"
begin

section \<open>Data model\<close>

subsection \<open>Python values\<close>

text \<open>
  The values that cross the boundary to the UI and to the management-system client:
  displayed text is a string, the client's statistics are integers or strings.
\<close>

datatype pyval = PyNone | PyBool bool | PyInt int | PyStr string

text \<open>Python's \<^verbatim>\<open>==\<close>: a \<^verbatim>\<open>bool\<close> is the integer 0 or 1.\<close>

fun py_eq :: "pyval \<Rightarrow> pyval \<Rightarrow> bool" where
  "py_eq (PyBool a) (PyInt b) = ((if a then 1 else 0) = b)"
| "py_eq (PyInt a) (PyBool b) = (a = (if b then 1 else 0))"
| "py_eq a b = (a = b)"

text \<open>Truth value testing, as in \<^verbatim>\<open>if desired_state:\<close>.\<close>

fun truthy :: "pyval \<Rightarrow> bool" where
  "truthy PyNone = False"
| "truthy (PyBool b) = b"
| "truthy (PyInt i) = (i \<noteq> 0)"
| "truthy (PyStr s) = (s \<noteq> [])"

subsection \<open>Exceptions, providers, servers\<close>

text \<open>
  The exceptions that the modelled code raises, catches or lets through.  The three
  exceptions of \<^verbatim>\<open>cfme.exceptions\<close> carry the formatted message they are raised with, and
  the wait-poller's \<^verbatim>\<open>TimedOutError\<close> the last result of its predicate.
\<close>

datatype exn =
    KeyError
  | AttributeError
  | ValueError
  | TypeError
  | NameError
  | ItemNotFound
  | TimedOutError pyval
  | ConnectionError
  | StatsDoNotMatch string
  | HostStatsNotContains string
  | ProviderHasNoProperty string
  | OtherError string

text \<open>A provider CRUD object; only its \<^verbatim>\<open>name\<close> is read by the modelled code.\<close>

record provider =
  provider_name :: string
  provider_key :: string

text \<open>The attributes of \<^verbatim>\<open>PhysicalServer\<close> (\<^verbatim>\<open>attr.ib\<close> fields, lines 51-55).\<close>

record physical_server =
  name :: string
  provider :: "provider option"
  hostname :: "string option"
  ip_address :: "string option"
  custom_ident :: "string option"

section \<open>PhysicalServerCollection: all and find_by\<close>

text \<open>
  A row of the five-table join: server name, management-system name, IP address.
  The collection holds its \<^verbatim>\<open>filters.get('provider')\<close> and the rows the join yields
  before any filter is applied.  \<^verbatim>\<open>get_crud_by_name\<close> is a function of another module
  and is passed in; it may raise.
\<close>

type_synonym row = "string \<times> string \<times> string option"

record physical_server_collection =
  filters_provider :: "provider option"
  join_rows :: "row list"

definition instantiate :: "string \<Rightarrow> string option \<Rightarrow> provider \<Rightarrow> physical_server" where
  "instantiate nm ip p =
     \<lparr>name = nm, provider = Some p, hostname = None, ip_address = ip, custom_ident = None\<rparr>"

text \<open>
  Lines 342-346 and 369-373: \<^verbatim>\<open>provider = None\<close>, then the collection filter, when set,
  rebinds it and narrows the query to the rows of that management system.
\<close>

definition physical_server_query ::
  "physical_server_collection \<Rightarrow> provider option \<times> row list" where
  "physical_server_query self =
     (case filters_provider self of
        Some p \<Rightarrow> (Some p, filter (\<lambda>(nm, ems_name, ip). ems_name = provider_name p) (join_rows self))
      | None \<Rightarrow> (None, join_rows self))"

text \<open>\<^verbatim>\<open>provider or get_crud_by_name(ems_name)\<close>\<close>

definition provider_or_crud ::
  "(string \<Rightarrow> exn + provider) \<Rightarrow> provider option \<Rightarrow> string \<Rightarrow> exn + provider" where
  "provider_or_crud get_crud_by_name prov ems_name =
     (case prov of Some p \<Rightarrow> Inr p | None \<Rightarrow> get_crud_by_name ems_name)"

fun all_loop ::
  "(string \<Rightarrow> exn + provider) \<Rightarrow> provider option \<Rightarrow> row list \<Rightarrow> physical_server list
     \<Rightarrow> exn + physical_server list" where
  "all_loop get_crud_by_name prov [] physical_servers = Inr physical_servers"
| "all_loop get_crud_by_name prov ((nm, ems_name, ip) # rows) physical_servers =
     (case provider_or_crud get_crud_by_name prov ems_name of
        Inl e \<Rightarrow> Inl e
      | Inr p \<Rightarrow>
          all_loop get_crud_by_name prov rows (physical_servers @ [instantiate nm ip p]))"

text \<open>\<^verbatim>\<open>all(self, provider)\<close>: the parameter is rebound to \<^verbatim>\<open>None\<close> before it is read.\<close>

definition all_servers ::
  "physical_server_collection \<Rightarrow> (string \<Rightarrow> exn + provider) \<Rightarrow> provider option
     \<Rightarrow> exn + physical_server list" where
  "all_servers self get_crud_by_name provider_arg =
     (let provider_arg = None :: provider option;
          (prov, rows) = physical_server_query self
      in all_loop get_crud_by_name prov rows [])"

fun find_by_loop ::
  "(string \<Rightarrow> exn + provider) \<Rightarrow> provider option \<Rightarrow> string \<Rightarrow> row list
     \<Rightarrow> exn + physical_server option" where
  "find_by_loop get_crud_by_name prov ph_name [] = Inr None"
| "find_by_loop get_crud_by_name prov ph_name ((nm, ems_name, ip) # rows) =
     (if ph_name = nm
      then (case provider_or_crud get_crud_by_name prov ems_name of
              Inl e \<Rightarrow> Inl e
            | Inr p \<Rightarrow> Inr (Some (instantiate nm ip p)))
      else find_by_loop get_crud_by_name prov ph_name rows)"

text \<open>
  \<^verbatim>\<open>find_by(self, provider, ph_name)\<close>: the loop falls off its end without a
  \<^verbatim>\<open>return\<close>, which is Python's \<^verbatim>\<open>None\<close>.
\<close>

definition find_by ::
  "physical_server_collection \<Rightarrow> (string \<Rightarrow> exn + provider) \<Rightarrow> provider option \<Rightarrow> string
     \<Rightarrow> exn + physical_server option" where
  "find_by self get_crud_by_name provider_arg ph_name =
     (let provider_arg = None :: provider option;
          (prov, rows) = physical_server_query self
      in find_by_loop get_crud_by_name prov ph_name rows)"

text \<open>Concrete inputs used to run the collection operations.\<close>

definition lenovo :: provider where
  "lenovo = \<lparr>provider_name = ''lenovo'', provider_key = ''lenovo_xclarity''\<rparr>"

definition other_provider :: provider where
  "other_provider = \<lparr>provider_name = ''rhv'', provider_key = ''rhv41''\<rparr>"

definition sample_rows :: "row list" where
  "sample_rows = [(''srv1'', ''lenovo'', Some ''10.0.0.1''), (''srv2'', ''rhv'', None)]"

definition sample_crud :: "string \<Rightarrow> exn + provider" where
  "sample_crud ems_name =
     (if ems_name = ''lenovo'' then Inr lenovo
      else if ems_name = ''rhv'' then Inr other_provider
      else Inl NameError)"

definition filtered_collection :: physical_server_collection where
  "filtered_collection = \<lparr>filters_provider = Some lenovo, join_rows = sample_rows\<rparr>"

definition unfiltered_collection :: physical_server_collection where
  "unfiltered_collection = \<lparr>filters_provider = None, join_rows = sample_rows\<rparr>"

section \<open>Conversions and formatting of Python values\<close>

subsection \<open>The builtin int()\<close>

text \<open>
  \<^verbatim>\<open>int(s)\<close> of a string: surrounding whitespace is dropped, one sign is allowed, and
  what is left must be one or more decimal digits; anything else is a
  \<^verbatim>\<open>ValueError\<close>.  (ASCII only; the underscores that later Python versions accept
  between digits are not.)  \<^verbatim>\<open>int(None)\<close> is a \<^verbatim>\<open>TypeError\<close>.
\<close>

definition is_space :: "char \<Rightarrow> bool" where
  "is_space c = (c \<in> set [CHR '' '', CHR 0x09, CHR 0x0A, CHR 0x0B, CHR 0x0C, CHR 0x0D])"

definition is_digit :: "char \<Rightarrow> bool" where
  "is_digit c = (c \<in> set ''0123456789'')"

definition digit_val :: "char \<Rightarrow> nat" where
  "digit_val c = of_char c - 48"

definition strip :: "string \<Rightarrow> string" where
  "strip s = rev (dropWhile is_space (rev (dropWhile is_space s)))"

definition parse_nat :: "string \<Rightarrow> nat option" where
  "parse_nat s =
     (if s \<noteq> [] \<and> list_all is_digit s
      then Some (foldl (\<lambda>acc c. 10 * acc + digit_val c) 0 s) else None)"

definition int_of_string :: "string \<Rightarrow> int option" where
  "int_of_string s =
     (case strip s of
        [] \<Rightarrow> None
      | c # cs \<Rightarrow>
          if c = CHR ''-'' then map_option (\<lambda>n. - int n) (parse_nat cs)
          else if c = CHR ''+'' then map_option int (parse_nat cs)
          else map_option int (parse_nat (c # cs)))"

fun py_int :: "pyval \<Rightarrow> exn + int" where
  "py_int PyNone = Inl TypeError"
| "py_int (PyBool b) = Inr (if b then 1 else 0)"
| "py_int (PyInt i) = Inr i"
| "py_int (PyStr s) = (case int_of_string s of None \<Rightarrow> Inl ValueError | Some i \<Rightarrow> Inr i)"

subsection \<open>Formatting with str.format\<close>

definition digit_char :: "nat \<Rightarrow> char" where
  "digit_char d = ''0123456789'' ! d"

function show_nat :: "nat \<Rightarrow> string" where
  "show_nat n =
     (if n < 10 then [digit_char n]
      else show_nat (n div 10) @ [digit_char (n mod 10)])"
  by pat_completeness auto
termination
  by (relation "measure id") auto

declare show_nat.simps [simp del]

definition show_int :: "int \<Rightarrow> string" where
  "show_int i = (if i < 0 then CHR ''-'' # show_nat (nat (- i)) else show_nat (nat i))"

fun py_str :: "pyval \<Rightarrow> string" where
  "py_str PyNone = ''None''"
| "py_str (PyBool b) = (if b then ''True'' else ''False'')"
| "py_str (PyInt i) = show_int i"
| "py_str (PyStr s) = s"

section \<open>PhysicalServer.validate_stats\<close>

definition INVENTORY_TO_MATCH :: "string list" where
  "INVENTORY_TO_MATCH = [''power_state'']"

definition STATS_TO_MATCH :: "string list" where
  "STATS_TO_MATCH = [''cores_capacity'', ''memory_capacity'']"

text \<open>
  \<^verbatim>\<open>validate_stats\<close> makes each of its outside calls at most once, so the model takes
  their outcomes as its input: \<^verbatim>\<open>self.load_details()\<close>, \<^verbatim>\<open>self.provider.mgmt\<close> (for a
  provider that is not \<^verbatim>\<open>None\<close>), \<^verbatim>\<open>client.stats(...)\<close>, \<^verbatim>\<open>client.inventory(...)\<close>,
  \<^verbatim>\<open>self.browser.selenium.refresh()\<close>, and \<^verbatim>\<open>getattr(self, key)(method=...)\<close> for each
  key.  Each outcome is the value returned or the exception raised.
\<close>

record stats_calls =
  load_details_outcome :: "exn + unit"
  mgmt_outcome :: "exn + unit"
  client_stats :: "exn + (string \<rightharpoonup> pyval)"
  client_inventory :: "exn + (string \<rightharpoonup> pyval)"
  selenium_refresh_outcome :: "exn + unit"
  accessor :: "string \<Rightarrow> exn + pyval"

text \<open>The messages of lines 281-282, 284-285, 287, 297-300, 302-303 and 305-306.\<close>

definition stat_mismatch_msg :: "string \<Rightarrow> string \<Rightarrow> int \<Rightarrow> int \<Rightarrow> string" where
  "stat_mismatch_msg stat nm server_stat cfme_stat =
     ''The '' @ stat @ '' stat does not match. (server: '' @ nm @ '', server stat: ''
       @ show_int server_stat @ '', cfme stat: '' @ show_int cfme_stat @ '')''"

definition inventory_mismatch_msg :: "string \<Rightarrow> string \<Rightarrow> pyval \<Rightarrow> pyval \<Rightarrow> string" where
  "inventory_mismatch_msg inventory nm server_inventory cfme_inventory =
     ''The '' @ inventory @ '' inventory does not match. (server: '' @ nm
       @ '', server inventory: '' @ py_str server_inventory
       @ '', cfme inventory: '' @ py_str cfme_inventory @ '')''"

definition stats_missing_msg :: "string \<Rightarrow> string" where
  "stats_missing_msg stat = ''Server stats information does not contain '' @ [CHR 0x27] @ stat @ [CHR 0x27]"

definition inventory_missing_msg :: "string \<Rightarrow> string" where
  "inventory_missing_msg inventory =
     ''Server inventory information does not contain '' @ [CHR 0x27] @ inventory @ [CHR 0x27]"

definition no_property_msg :: "string \<Rightarrow> string" where
  "no_property_msg key = ''Provider does not know how to get '' @ [CHR 0x27] @ key @ [CHR 0x27]"

text \<open>The body of the first \<^verbatim>\<open>try\<close> (lines 277-282).\<close>

definition stat_try ::
  "string \<Rightarrow> (string \<Rightarrow> exn + pyval) \<Rightarrow> (string \<rightharpoonup> pyval) \<Rightarrow> string \<Rightarrow> exn + unit" where
  "stat_try nm acc server_stats stat =
     (case acc stat of
        Inl e \<Rightarrow> Inl e
      | Inr v \<Rightarrow>
         (case py_int v of
            Inl e \<Rightarrow> Inl e
          | Inr cfme_stat \<Rightarrow>
             (case server_stats stat of
                None \<Rightarrow> Inl KeyError
              | Some sv \<Rightarrow>
                 (case py_int sv of
                    Inl e \<Rightarrow> Inl e
                  | Inr server_stat \<Rightarrow>
                      if server_stat \<noteq> cfme_stat
                      then Inl (StatsDoNotMatch (stat_mismatch_msg stat nm server_stat cfme_stat))
                      else Inr ()))))"

text \<open>The \<^verbatim>\<open>except\<close> clauses of lines 283-287; any other exception passes through.\<close>

definition stat_except :: "string \<Rightarrow> exn \<Rightarrow> exn" where
  "stat_except stat e =
     (if e = KeyError then HostStatsNotContains (stats_missing_msg stat)
      else if e = AttributeError then ProviderHasNoProperty (no_property_msg stat)
      else e)"

fun stats_loop ::
  "string \<Rightarrow> (string \<Rightarrow> exn + pyval) \<Rightarrow> (string \<rightharpoonup> pyval) \<Rightarrow> string list \<Rightarrow> exn + unit" where
  "stats_loop nm acc server_stats [] = Inr ()"
| "stats_loop nm acc server_stats (stat # rest) =
     (case stat_try nm acc server_stats stat of
        Inl e \<Rightarrow> Inl (stat_except stat e)
      | Inr _ \<Rightarrow> stats_loop nm acc server_stats rest)"

text \<open>
  The variable \<^verbatim>\<open>server_inventory\<close> holds the client's mapping when the second loop
  starts; line 294 rebinds it to the value looked up.  Subscripting such a value with a
  string key is a \<^verbatim>\<open>TypeError\<close>.
\<close>

datatype inventory_var = InvMapping "string \<rightharpoonup> pyval" | InvValue pyval

fun subscript :: "inventory_var \<Rightarrow> string \<Rightarrow> exn + pyval" where
  "subscript (InvMapping m) k = (case m k of None \<Rightarrow> Inl KeyError | Some v \<Rightarrow> Inr v)"
| "subscript (InvValue v) k = Inl TypeError"

text \<open>The body of the second \<^verbatim>\<open>try\<close> (lines 293-300); it returns the rebound variable.\<close>

definition inventory_try ::
  "string \<Rightarrow> (string \<Rightarrow> exn + pyval) \<Rightarrow> inventory_var \<Rightarrow> string \<Rightarrow> exn + inventory_var" where
  "inventory_try nm acc server_inventory inventory =
     (case acc inventory of
        Inl e \<Rightarrow> Inl e
      | Inr cfme_inventory \<Rightarrow>
         (case subscript server_inventory inventory of
            Inl e \<Rightarrow> Inl e
          | Inr sv \<Rightarrow>
              if \<not> py_eq sv cfme_inventory
              then Inl (StatsDoNotMatch (inventory_mismatch_msg inventory nm sv cfme_inventory))
              else Inr (InvValue sv)))"

definition inventory_except :: "string \<Rightarrow> exn \<Rightarrow> exn" where
  "inventory_except inventory e =
     (if e = KeyError then HostStatsNotContains (inventory_missing_msg inventory)
      else if e = AttributeError then ProviderHasNoProperty (no_property_msg inventory)
      else e)"

fun inventory_loop ::
  "string \<Rightarrow> (string \<Rightarrow> exn + pyval) \<Rightarrow> inventory_var \<Rightarrow> string list \<Rightarrow> exn + unit" where
  "inventory_loop nm acc server_inventory [] = Inr ()"
| "inventory_loop nm acc server_inventory (inventory # rest) =
     (case inventory_try nm acc server_inventory inventory of
        Inl e \<Rightarrow> Inl (inventory_except inventory e)
      | Inr server_inventory' \<Rightarrow> inventory_loop nm acc server_inventory' rest)"

text \<open>
  \<^verbatim>\<open>validate_stats(self, ui=False)\<close>.  \<^verbatim>\<open>self.provider\<close> defaults to \<^verbatim>\<open>None\<close>, and
  \<^verbatim>\<open>None.mgmt\<close> is an \<^verbatim>\<open>AttributeError\<close> outside every \<^verbatim>\<open>try\<close>.
\<close>

definition validate_stats :: "physical_server \<Rightarrow> stats_calls \<Rightarrow> bool \<Rightarrow> exn + unit" where
  "validate_stats self calls ui =
     (case (if ui then load_details_outcome calls else Inr ()) of
        Inl e \<Rightarrow> Inl e
      | Inr _ \<Rightarrow>
     (case provider self of
        None \<Rightarrow> Inl AttributeError
      | Some p \<Rightarrow>
     (case mgmt_outcome calls of
        Inl e \<Rightarrow> Inl e
      | Inr _ \<Rightarrow>
     (case client_stats calls of
        Inl e \<Rightarrow> Inl e
      | Inr server_stats \<Rightarrow>
     (case client_inventory calls of
        Inl e \<Rightarrow> Inl e
      | Inr server_inventory \<Rightarrow>
     (case (if ui then selenium_refresh_outcome calls else Inr ()) of
        Inl e \<Rightarrow> Inl e
      | Inr _ \<Rightarrow>
     (case stats_loop (name self) (accessor calls) server_stats STATS_TO_MATCH of
        Inl e \<Rightarrow> Inl e
      | Inr _ \<Rightarrow>
          inventory_loop (name self) (accessor calls) (InvMapping server_inventory)
            INVENTORY_TO_MATCH)))))))"

text \<open>
  The outside calls made before the two loops all return: the entity has a provider, its
  client is obtained and hands back the two mappings, and with \<^verbatim>\<open>ui=True\<close> the page
  loads and the browser refreshes.
\<close>

definition outside_calls_return ::
  "physical_server \<Rightarrow> stats_calls \<Rightarrow> bool \<Rightarrow> (string \<rightharpoonup> pyval) \<Rightarrow> (string \<rightharpoonup> pyval) \<Rightarrow> bool" where
  "outside_calls_return self calls ui server_stats server_inventory =
     (provider self \<noteq> None \<and> mgmt_outcome calls = Inr () \<and>
      client_stats calls = Inr server_stats \<and> client_inventory calls = Inr server_inventory \<and>
      (if ui then load_details_outcome calls = Inr () \<and> selenium_refresh_outcome calls = Inr ()
       else True))"

text \<open>Concrete inputs used to run \<^verbatim>\<open>validate_stats\<close>.\<close>

definition srv1 :: physical_server where
  "srv1 = instantiate ''srv1'' (Some ''10.0.0.1'') lenovo"

definition calls_of ::
  "(string \<Rightarrow> exn + pyval) \<Rightarrow> (string \<rightharpoonup> pyval) \<Rightarrow> (string \<rightharpoonup> pyval) \<Rightarrow> stats_calls" where
  "calls_of acc server_stats server_inventory =
     \<lparr>load_details_outcome = Inr (), mgmt_outcome = Inr (),
      client_stats = Inr server_stats, client_inventory = Inr server_inventory,
      selenium_refresh_outcome = Inr (), accessor = acc\<rparr>"

definition ui_text :: "string \<Rightarrow> string \<Rightarrow> string \<Rightarrow> string \<Rightarrow> exn + pyval" where
  "ui_text cores memory pstate key =
     (if key = ''cores_capacity'' then Inr (PyStr cores)
      else if key = ''memory_capacity'' then Inr (PyStr memory)
      else if key = ''power_state'' then Inr (PyStr pstate)
      else Inl AttributeError)"

definition remote_stats :: "pyval \<Rightarrow> pyval \<Rightarrow> (string \<rightharpoonup> pyval)" where
  "remote_stats cores memory = [''cores_capacity'' \<mapsto> cores, ''memory_capacity'' \<mapsto> memory]"

definition remote_inventory :: "pyval \<Rightarrow> (string \<rightharpoonup> pyval)" where
  "remote_inventory pstate = [''power_state'' \<mapsto> pstate]"

section \<open>PhysicalServer.exists\<close>

text \<open>
  The listing view that \<^verbatim>\<open>navigate_to(self.parent, "All")\<close> lands on: its pages, each
  with the names of the entities it shows.
\<close>

type_synonym listing = "string list list"

text \<open>
  Modelled from the spec: \<^verbatim>\<open>view.entities.get_entity(name=..., surf_pages=True)\<close> belongs
  to the view library, which is not part of the sources at hand.  The spec describes it
  as a paginated scan of the listing for the entity's name, whose failure is the
  \<^verbatim>\<open>NotFound\<close> error (\<^verbatim>\<open>ItemNotFound\<close>).  The scan visits the pages in order and
  returns the number of the first page that shows the name.
\<close>

fun get_entity_from :: "nat \<Rightarrow> listing \<Rightarrow> string \<Rightarrow> exn + nat" where
  "get_entity_from i [] nm = Inl ItemNotFound"
| "get_entity_from i (page # pages) nm =
     (if nm \<in> set page then Inr i else get_entity_from (Suc i) pages nm)"

definition get_entity :: "listing \<Rightarrow> string \<Rightarrow> exn + nat" where
  "get_entity view nm = get_entity_from 0 view nm"

text \<open>
  The property \<^verbatim>\<open>exists\<close> (lines 181-193).  The navigation is outside the \<^verbatim>\<open>try\<close>: an
  exception it raises propagates.  Inside, only \<^verbatim>\<open>ItemNotFound\<close> is caught.
\<close>

definition exists :: "physical_server \<Rightarrow> exn + listing \<Rightarrow> exn + bool" where
  "exists self navigate_to_all =
     (case navigate_to_all of
        Inl e \<Rightarrow> Inl e
      | Inr view \<Rightarrow>
         (case get_entity view (name self) of
            Inl e \<Rightarrow> if e = ItemNotFound then Inr False else Inl e
          | Inr _ \<Rightarrow> Inr True))"

definition three_pages :: listing where
  "three_pages = [[''srv7'', ''srv8''], [''srv1'', ''srv2''], [''srv3'']]"

section \<open>The browser, the provider and the clock\<close>

text \<open>
  The polling operations act on the outside world again and again, so they are modelled
  over an explicit state: a clock in seconds and the trace of what was done so far, newest
  first, each action with its outcome.  What the world answers is given by an
  environment: a function of the trace, the time and the action, returning the outcome
  (a value or an exception) and the seconds the action took.
\<close>

datatype action =
    NavigateTo string string
  | ItemSelect string string bool
  | BrowserRefresh
  | GetTextOf string string
  | FlashIsDisplayed
  | LastRefreshDate string
  | HttpGet string bool
  | CallAttribute string
  | Sleep nat

type_synonym outcome = "exn + pyval"

record world =
  clock :: nat
  trace :: "(action \<times> outcome) list"

type_synonym environment = "(action \<times> outcome) list \<Rightarrow> nat \<Rightarrow> action \<Rightarrow> outcome \<times> nat"

text \<open>
  A computation returns a value or raises, and leaves a new world; \<open>None\<close> stands for a
  computation that never returns.
\<close>

type_synonym 'a prog = "world \<Rightarrow> ((exn + 'a) \<times> world) option"

definition return_prog :: "'a \<Rightarrow> 'a prog" where
  "return_prog x w = Some (Inr x, w)"

definition raise_prog :: "exn \<Rightarrow> 'a prog" where
  "raise_prog e w = Some (Inl e, w)"

definition bind_prog :: "'a prog \<Rightarrow> ('a \<Rightarrow> 'b prog) \<Rightarrow> 'b prog" where
  "bind_prog m f w =
     (case m w of
        None \<Rightarrow> None
      | Some (Inl e, w1) \<Rightarrow> Some (Inl e, w1)
      | Some (Inr x, w1) \<Rightarrow> f x w1)"

text \<open>\<^verbatim>\<open>try: m except ...: h\<close>; the handler re-raises what it does not catch.\<close>

definition catch_prog :: "'a prog \<Rightarrow> (exn \<Rightarrow> 'a prog) \<Rightarrow> 'a prog" where
  "catch_prog m h w =
     (case m w of
        None \<Rightarrow> None
      | Some (Inl e, w1) \<Rightarrow> h e w1
      | Some (Inr x, w1) \<Rightarrow> Some (Inr x, w1))"

definition perform :: "environment \<Rightarrow> action \<Rightarrow> pyval prog" where
  "perform env a w =
     (let (r, d) = env (trace w) (clock w) a
      in Some (r, \<lparr>clock = clock w + d, trace = (a, r) # trace w\<rparr>))"

text \<open>\<^verbatim>\<open>time.sleep(delay)\<close>\<close>

definition sleep :: "nat \<Rightarrow> world \<Rightarrow> world" where
  "sleep d w = \<lparr>clock = clock w + d, trace = (Sleep d, Inr PyNone) # trace w\<rparr>"

section \<open>The wait-poller\<close>

text \<open>
  Modelled from the spec: \<^verbatim>\<open>wait_for\<close> of \<^verbatim>\<open>cfme.utils.wait\<close> is not part of the sources
  at hand.  The spec's contract: \<^verbatim>\<open>wait_for(predicate, timeout, delay, on_failure?)\<close>
  calls the predicate repeatedly with \<^verbatim>\<open>delay\<close> spacing until it returns truthy or the
  timeout elapses; on each failed attempt it may invoke an optional recovery action
  before retrying; it fails with \<^verbatim>\<open>TimedOut\<close>, carrying the last observed state, when the
  timeout is exceeded.  Errors surface to the caller: an exception of the predicate or
  of the recovery action ends the wait.  The elapsed time is measured from the start of
  the wait, \<open>st_time\<close>.
\<close>

partial_function (option) wait_for_loop ::
  "pyval prog \<Rightarrow> nat \<Rightarrow> nat \<Rightarrow> unit prog option \<Rightarrow> nat \<Rightarrow> world
     \<Rightarrow> ((exn + pyval) \<times> world) option" where
  "wait_for_loop func num_sec delay fail_func st_time w =
     (case func w of
        None \<Rightarrow> None
      | Some (Inl e, w1) \<Rightarrow> Some (Inl e, w1)
      | Some (Inr out, w1) \<Rightarrow>
          if truthy out then Some (Inr out, w1)
          else
            (case (case fail_func of None \<Rightarrow> Some (Inr (), sleep delay w1)
                                   | Some f \<Rightarrow> f (sleep delay w1)) of
               None \<Rightarrow> None
             | Some (Inl e, w2) \<Rightarrow> Some (Inl e, w2)
             | Some (Inr _, w2) \<Rightarrow>
                 if st_time + num_sec < clock w2 then Some (Inl (TimedOutError out), w2)
                 else wait_for_loop func num_sec delay fail_func st_time w2))"

declare wait_for_loop.simps [code]

definition wait_for :: "pyval prog \<Rightarrow> nat \<Rightarrow> nat \<Rightarrow> unit prog option \<Rightarrow> pyval prog" where
  "wait_for func num_sec delay fail_func w = wait_for_loop func num_sec delay fail_func (clock w) w"

section \<open>PhysicalServer: buttons, accessors and waits\<close>

text \<open>\<^verbatim>\<open>_execute_button\<close> (lines 73-76); the view it returns is the browser's current page.\<close>

definition execute_button ::
  "environment \<Rightarrow> physical_server \<Rightarrow> string \<Rightarrow> string \<Rightarrow> bool \<Rightarrow> unit prog" where
  "execute_button env self button opt handle_alert =
     bind_prog (perform env (NavigateTo (name self) ''Details'')) (\<lambda>view.
     bind_prog (perform env (ItemSelect button opt handle_alert)) (\<lambda>_.
     return_prog ()))"

text \<open>
  \<^verbatim>\<open>provider.last_refresh_date()\<close>; the keyword argument \<^verbatim>\<open>provider\<close> defaults to
  \<^verbatim>\<open>None\<close>, which has no such attribute.
\<close>

definition last_refresh_date :: "environment \<Rightarrow> provider option \<Rightarrow> pyval prog" where
  "last_refresh_date env prov =
     (case prov of
        None \<Rightarrow> raise_prog AttributeError
      | Some p \<Rightarrow> perform env (LastRefreshDate (provider_name p)))"

text \<open>\<^verbatim>\<open>refresh(self, provider, handle_alert=False)\<close> (lines 121-130).\<close>

definition refresh ::
  "environment \<Rightarrow> physical_server \<Rightarrow> provider option \<Rightarrow> bool \<Rightarrow> unit prog" where
  "refresh env self prov handle_alert =
     bind_prog (last_refresh_date env prov) (\<lambda>last_refresh.
     bind_prog (execute_button env self ''Configuration''
                  ''Refresh Relationships and Power States'' handle_alert) (\<lambda>_.
     bind_prog (wait_for
                  (bind_prog (last_refresh_date env prov) (\<lambda>d.
                   return_prog (PyBool (\<not> py_eq last_refresh d))))
                  300 30 None) (\<lambda>_.
     return_prog ())))"




definition memory_capacity :: "environment \<Rightarrow> physical_server \<Rightarrow> pyval prog" where
  "memory_capacity env self =
     bind_prog (perform env (NavigateTo (name self) ''Details'')) (\<lambda>view.
     perform env (GetTextOf ''properties'' ''Total memory (mb)''))"






text \<open>
  The keyword arguments that \<^verbatim>\<open>_execute_action_button\<close> reads, each absent or given.
  \<^verbatim>\<open>handle_alert\<close> is a named parameter that the callers fill from the same
  \<^verbatim>\<open>**kwargs\<close>.
\<close>

record kwargs =
  kw_target :: "string option"
  kw_provider :: "provider option"
  kw_desired_state :: "pyval option"
  kw_timeout :: "nat option"
  kw_delay :: "nat option"
  kw_handle_alert :: "bool option"



text \<open>\<^verbatim>\<open>_wait_restart_bmc(self, delay=5, num_sec=300, verify_ssl=False)\<close> (lines 225-246).\<close>

definition send_request :: "environment \<Rightarrow> string \<Rightarrow> bool \<Rightarrow> pyval prog" where
  "send_request env url verify_ssl =
     catch_prog (perform env (HttpGet url verify_ssl))
       (\<lambda>e. if e = ConnectionError then return_prog (PyBool False) else raise_prog e)"

definition bmc_url :: "physical_server \<Rightarrow> string" where
  "bmc_url self = ''https://'' @ (case ip_address self of None \<Rightarrow> ''None'' | Some ip \<Rightarrow> ip)"

text \<open>A parameter with a default value: \<open>None\<close> when the caller leaves it out.\<close>

definition param_default :: "'a option \<Rightarrow> 'a \<Rightarrow> 'a" where
  "param_default given dflt = (case given of None \<Rightarrow> dflt | Some v \<Rightarrow> v)"

definition wait_restart_bmc ::
  "environment \<Rightarrow> physical_server \<Rightarrow> nat option \<Rightarrow> nat option \<Rightarrow> bool option \<Rightarrow> unit prog" where
  "wait_restart_bmc env self delay_arg num_sec_arg verify_ssl_arg =
     (let delay = param_default delay_arg 5;
          num_sec = param_default num_sec_arg 300;
          verify_ssl = param_default verify_ssl_arg False;
          url = bmc_url self
      in bind_prog (wait_for
                      (bind_prog (send_request env url verify_ssl) (\<lambda>ok.
                       return_prog (PyBool (\<not> truthy ok))))
                      num_sec delay None) (\<lambda>_.
         bind_prog (wait_for (send_request env url verify_ssl) num_sec delay None) (\<lambda>_.
         return_prog ())))"









section \<open>What the claims say, in terms of single actions\<close>

text \<open>
  The properties below are stated without the modelled operations themselves: by the
  single actions performed on the world, the sleeps, and the relation \<open>attempts\<close> of the
  wait-poller.
\<close>

text \<open>A world is later than another: the clock has not gone back and the trace was extended.\<close>

definition later :: "world \<Rightarrow> world \<Rightarrow> bool" where
  "later w w' = (clock w \<le> clock w' \<and> suffix (trace w) (trace w'))"

text \<open>A computation only moves the world forward, and a computation always returns.\<close>

definition advances :: "'a prog \<Rightarrow> bool" where
  "advances p = (\<forall>w r w'. p w = Some (r, w') \<longrightarrow> later w w')"

definition returns :: "'a prog \<Rightarrow> bool" where
  "returns p = (\<forall>w. p w \<noteq> None)"

text \<open>
  The attempts of a wait that started in world \<open>w\<close>: the next attempt starts in \<open>w\<close>
  itself, or after an attempt that failed (the relation \<open>failed\<close> between the worlds before
  and after it) and a sleep of \<open>delay\<close> seconds that ended no later than the deadline.
\<close>

inductive attempts ::
  "(world \<Rightarrow> world \<Rightarrow> bool) \<Rightarrow> nat \<Rightarrow> nat \<Rightarrow> world \<Rightarrow> world \<Rightarrow> bool"
  for failed :: "world \<Rightarrow> world \<Rightarrow> bool" and delay :: nat and deadline :: nat and w :: world
  where
    first_attempt: "attempts failed delay deadline w w"
  | next_attempt:
      "attempts failed delay deadline w w0 \<Longrightarrow> failed w0 w1 \<Longrightarrow>
       clock (sleep delay w1) \<le> deadline \<Longrightarrow>
       attempts failed delay deadline w (sleep delay w1)"

text \<open>A predicate's failed attempt: it returned a value that is not truthy.\<close>

definition failed_attempt :: "pyval prog \<Rightarrow> world \<Rightarrow> world \<Rightarrow> bool" where
  "failed_attempt func w w' = (\<exists>out. func w = Some (Inr out, w') \<and> \<not> truthy out)"

text \<open>
  The last attempt of a wait with the predicate \<open>func\<close>: it returned a truthy value, or
  it raised, or it failed and the sleep after it ended past the deadline.
\<close>

definition last_attempt ::
  "pyval prog \<Rightarrow> nat \<Rightarrow> nat \<Rightarrow> world \<Rightarrow> exn + pyval \<Rightarrow> world \<Rightarrow> bool" where
  "last_attempt func delay deadline w0 r w' =
     ((\<exists>out. r = Inr out \<and> truthy out \<and> func w0 = Some (Inr out, w')) \<or>
      (\<exists>e. r = Inl e \<and> func w0 = Some (Inl e, w')) \<or>
      (\<exists>out w1. func w0 = Some (Inr out, w1) \<and> \<not> truthy out \<and> w' = sleep delay w1 \<and>
          deadline < clock w' \<and> r = Inl (TimedOutError out)))"

text \<open>
  A toolbar button of the detail view was pressed: the browser went to the details of
  the server and selected the item; or one of the two steps raised.
\<close>

definition button_pressed ::
  "environment \<Rightarrow> physical_server \<Rightarrow> string \<Rightarrow> string \<Rightarrow> bool \<Rightarrow> world \<Rightarrow> world \<Rightarrow> bool" where
  "button_pressed env self button opt handle_alert w w' =
     (\<exists>n w1 s. perform env (NavigateTo (name self) ''Details'') w = Some (Inr n, w1) \<and>
        perform env (ItemSelect button opt handle_alert) w1 = Some (Inr s, w'))"

definition button_raised ::
  "environment \<Rightarrow> physical_server \<Rightarrow> string \<Rightarrow> string \<Rightarrow> bool \<Rightarrow> exn \<Rightarrow> world \<Rightarrow> world
     \<Rightarrow> bool" where
  "button_raised env self button opt handle_alert e w w' =
     (perform env (NavigateTo (name self) ''Details'') w = Some (Inl e, w') \<or>
      (\<exists>n w1. perform env (NavigateTo (name self) ''Details'') w = Some (Inr n, w1) \<and>
         perform env (ItemSelect button opt handle_alert) w1 = Some (Inl e, w')))"

text \<open>A read of the provider's last-refresh timestamp that gave the timestamp \<open>stamp\<close> again.\<close>

definition same_timestamp_read ::
  "environment \<Rightarrow> string \<Rightarrow> pyval \<Rightarrow> world \<Rightarrow> world \<Rightarrow> bool" where
  "same_timestamp_read env pn stamp w w' =
     (\<exists>d. perform env (LastRefreshDate pn) w = Some (Inr d, w') \<and> py_eq stamp d)"

text \<open>
  The remote inventory was refreshed: the timestamp was read, the button
  ``Refresh Relationships and Power States'' of the menu ``Configuration'' pressed, and
  after attempts that read the same timestamp, 30 seconds apart and within 300 seconds of
  the button, a read gave a different one.
\<close>

definition inventory_refreshed ::
  "environment \<Rightarrow> physical_server \<Rightarrow> string \<Rightarrow> bool \<Rightarrow> world \<Rightarrow> world \<Rightarrow> bool" where
  "inventory_refreshed env self pn handle_alert w w' =
     (\<exists>stamp w1 w2 w0 d.
        perform env (LastRefreshDate pn) w = Some (Inr stamp, w1) \<and>
        button_pressed env self ''Configuration'' ''Refresh Relationships and Power States''
          handle_alert w1 w2 \<and>
        attempts (same_timestamp_read env pn stamp) 30 (clock w2 + 300) w2 w0 \<and>
        perform env (LastRefreshDate pn) w0 = Some (Inr d, w') \<and>
        \<not> py_eq stamp d)"

text \<open>
  The refresh raised: a read of the timestamp or the button raised, or the wait timed
  out: an attempt read the same timestamp and the sleep of 30 seconds after it ended more
  than 300 seconds after the button.
\<close>

definition refresh_raised ::
  "environment \<Rightarrow> physical_server \<Rightarrow> string \<Rightarrow> bool \<Rightarrow> exn \<Rightarrow> world \<Rightarrow> world \<Rightarrow> bool" where
  "refresh_raised env self pn handle_alert e w w' =
     (perform env (LastRefreshDate pn) w = Some (Inl e, w') \<or>
      (\<exists>stamp w1.
         perform env (LastRefreshDate pn) w = Some (Inr stamp, w1) \<and>
         (button_raised env self ''Configuration'' ''Refresh Relationships and Power States''
            handle_alert e w1 w' \<or>
          (\<exists>w2 w0.
             button_pressed env self ''Configuration'' ''Refresh Relationships and Power States''
               handle_alert w1 w2 \<and>
             attempts (same_timestamp_read env pn stamp) 30 (clock w2 + 300) w2 w0 \<and>
             (perform env (LastRefreshDate pn) w0 = Some (Inl e, w') \<or>
              (\<exists>w3. same_timestamp_read env pn stamp w0 w3 \<and> w' = sleep 30 w3 \<and>
                 clock w2 + 300 < clock w' \<and> e = TimedOutError (PyBool False)))))))"









text \<open>
  A probe of the controller: a GET of the URL that was answered with success, one that
  failed (a connection error, or an answer that is not a success), one that raised
  anything else.
\<close>

definition probe_ok :: "environment \<Rightarrow> string \<Rightarrow> bool \<Rightarrow> world \<Rightarrow> world \<Rightarrow> bool" where
  "probe_ok env url verify_ssl w w' =
     (\<exists>ok. perform env (HttpGet url verify_ssl) w = Some (Inr ok, w') \<and> truthy ok)"

definition probe_failed ::
  "environment \<Rightarrow> string \<Rightarrow> bool \<Rightarrow> pyval \<Rightarrow> world \<Rightarrow> world \<Rightarrow> bool" where
  "probe_failed env url verify_ssl out w w' =
     ((perform env (HttpGet url verify_ssl) w = Some (Inl ConnectionError, w') \<and>
       out = PyBool False) \<or>
      (perform env (HttpGet url verify_ssl) w = Some (Inr out, w') \<and> \<not> truthy out))"

definition probe_raised :: "environment \<Rightarrow> string \<Rightarrow> bool \<Rightarrow> exn \<Rightarrow> world \<Rightarrow> world \<Rightarrow> bool" where
  "probe_raised env url verify_ssl e w w' =
     (perform env (HttpGet url verify_ssl) w = Some (Inl e, w') \<and> e \<noteq> ConnectionError)"

definition probe_not_ok :: "environment \<Rightarrow> string \<Rightarrow> bool \<Rightarrow> world \<Rightarrow> world \<Rightarrow> bool" where
  "probe_not_ok env url verify_ssl w w' = (\<exists>out. probe_failed env url verify_ssl out w w')"

text \<open>
  The controller was seen to stop and to start again.  First wait, begun in \<open>w\<close>: after
  probes that were answered with success, \<open>delay\<close> seconds apart and each begun within
  \<open>num_sec\<close> seconds of \<open>w\<close>, a probe failed and left the world \<open>w1\<close>.  Second wait, begun
  in \<open>w1\<close>: after probes that failed, \<open>delay\<close> seconds apart and each begun within
  \<open>num_sec\<close> seconds of \<open>w1\<close>, a probe was answered with success.
\<close>

definition bmc_restarted ::
  "environment \<Rightarrow> string \<Rightarrow> bool \<Rightarrow> nat \<Rightarrow> nat \<Rightarrow> world \<Rightarrow> world \<Rightarrow> bool" where
  "bmc_restarted env url verify_ssl num_sec delay w w' =
     (\<exists>w0 out w1 w2.
        attempts (probe_ok env url verify_ssl) delay (clock w + num_sec) w w0 \<and>
        probe_failed env url verify_ssl out w0 w1 \<and>
        attempts (probe_not_ok env url verify_ssl) delay (clock w1 + num_sec) w1 w2 \<and>
        probe_ok env url verify_ssl w2 w')"

text \<open>
  The wait for the controller raised.  In the first wait a probe raised something other
  than a connection error, or the sleep after an answered probe ended more than
  \<open>num_sec\<close> seconds after the start of the wait; or the first wait ended with a failed
  probe, and in the second wait a probe raised, or the sleep after a failed probe ended
  more than \<open>num_sec\<close> seconds after the start of the second wait.  A wait that times out
  raises \<^verbatim>\<open>TimedOutError\<close> with the last value of its predicate.
\<close>

definition bmc_wait_raised ::
  "environment \<Rightarrow> string \<Rightarrow> bool \<Rightarrow> nat \<Rightarrow> nat \<Rightarrow> exn \<Rightarrow> world \<Rightarrow> world \<Rightarrow> bool" where
  "bmc_wait_raised env url verify_ssl num_sec delay e w w' =
     (\<exists>w0. attempts (probe_ok env url verify_ssl) delay (clock w + num_sec) w w0 \<and>
        (probe_raised env url verify_ssl e w0 w' \<or>
         (\<exists>w3. probe_ok env url verify_ssl w0 w3 \<and> w' = sleep delay w3 \<and>
            clock w + num_sec < clock w' \<and> e = TimedOutError (PyBool False)) \<or>
         (\<exists>out w1 w2.
            probe_failed env url verify_ssl out w0 w1 \<and>
            attempts (probe_not_ok env url verify_ssl) delay (clock w1 + num_sec) w1 w2 \<and>
            (probe_raised env url verify_ssl e w2 w' \<or>
             (\<exists>out2 w3. probe_failed env url verify_ssl out2 w2 w3 \<and> w' = sleep delay w3 \<and>
                clock w1 + num_sec < clock w' \<and> e = TimedOutError out2)))))"

section \<open>A concrete environment\<close>

text \<open>
  An environment to run the polling operations in.  Every action takes one second.  The
  provider's last-refresh timestamp is the number of refresh clicks made so far; the
  displayed power state is \<^verbatim>\<open>on\<close> from the second refresh on; the controller answers the
  first probe, drops the connection on the second, answers the third with an error
  status and every later one with success.
\<close>

definition is_refresh_click :: "action \<times> outcome \<Rightarrow> bool" where
  "is_refresh_click ev =
     (case fst ev of ItemSelect button opt h \<Rightarrow> button = ''Configuration'' | _ \<Rightarrow> False)"

definition is_probe :: "action \<times> outcome \<Rightarrow> bool" where
  "is_probe ev = (case fst ev of HttpGet url v \<Rightarrow> True | _ \<Rightarrow> False)"

definition sample_env :: environment where
  "sample_env tr t a =
     (case a of
        LastRefreshDate p \<Rightarrow> (Inr (PyInt (int (length (filter is_refresh_click tr)))), 1)
      | GetTextOf grp field \<Rightarrow>
          (Inr (PyStr (if 2 \<le> length (filter is_refresh_click tr) then ''on'' else ''off'')), 1)
      | HttpGet url v \<Rightarrow>
          (let n = length (filter is_probe tr)
           in if n = 0 then (Inr (PyBool True), 1)
              else if n = 1 then (Inl ConnectionError, 1)
              else if n = 2 then (Inr (PyBool False), 1)
              else (Inr (PyBool True), 1))
      | FlashIsDisplayed \<Rightarrow> (Inr (PyBool True), 1)
      | _ \<Rightarrow> (Inr PyNone, 1))"

text \<open>An environment in which the provider's timestamp never changes.\<close>

definition frozen_env :: environment where
  "frozen_env tr t a =
     (case a of
        LastRefreshDate p \<Rightarrow> (Inr (PyStr ''2018-01-01''), 1)
      | GetTextOf grp field \<Rightarrow> (Inr (PyStr ''off''), 1)
      | _ \<Rightarrow> (Inr PyNone, 1))"

definition world0 :: world where
  "world0 = \<lparr>clock = 0, trace = []\<rparr>"

definition no_kwargs :: kwargs where
  "no_kwargs = \<lparr>kw_target = None, kw_provider = None, kw_desired_state = None,
                 kw_timeout = None, kw_delay = None, kw_handle_alert = None\<rparr>"



text \<open>The world after the sample run of \<^verbatim>\<open>_wait_restart_bmc\<close>: four probes, two sleeps.\<close>

definition restart_bmc_final_world :: world where
  "restart_bmc_final_world =
     \<lparr>clock = 14,
      trace =
        [(HttpGet ''https://10.0.0.1'' False, Inr (PyBool True)),
         (Sleep 5, Inr PyNone),
         (HttpGet ''https://10.0.0.1'' False, Inr (PyBool False)),
         (HttpGet ''https://10.0.0.1'' False, Inl ConnectionError),
         (Sleep 5, Inr PyNone),
         (HttpGet ''https://10.0.0.1'' False, Inr (PyBool True))]\<rparr>"



section \<open>Properties of the collection\<close>

lemma all_loop_filter:
  "all_loop crud (Some p) rows acc = Inr (acc @ map (\<lambda>(nm, ems_name, ip). instantiate nm ip p) rows)"
  by (induction rows arbitrary: acc) (auto simp: provider_or_crud_def)

lemma all_loop_lookup:
  "all_loop crud None rows acc = Inr es \<Longrightarrow>
     \<exists>new. es = acc @ new \<and>
       list_all2 (\<lambda>e (nm, ems_name, ip). \<exists>p. crud ems_name = Inr p \<and> e = instantiate nm ip p) new rows"
proof (induction rows arbitrary: acc)
  case Nil
  then show ?case by simp
next
  case (Cons r rows)
  obtain nm ems_name ip where r: "r = (nm, ems_name, ip)" by (cases r) auto
  from Cons.prems r obtain p where p: "crud ems_name = Inr p"
    and rest: "all_loop crud None rows (acc @ [instantiate nm ip p]) = Inr es"
    by (auto simp: provider_or_crud_def split: sum.splits)
  from Cons.IH [OF rest] obtain new where
    new: "es = (acc @ [instantiate nm ip p]) @ new"
    and rel: "list_all2 (\<lambda>e (nm, ems_name, ip). \<exists>p. crud ems_name = Inr p \<and> e = instantiate nm ip p) new rows"
    by blast
  have "es = acc @ (instantiate nm ip p # new)" using new by simp
  moreover have "list_all2 (\<lambda>e (nm, ems_name, ip). \<exists>p. crud ems_name = Inr p \<and> e = instantiate nm ip p)
      (instantiate nm ip p # new) (r # rows)"
    using rel p r by simp
  ultimately show ?case by blast
qed

lemma find_by_loop_provider:
  "find_by_loop crud prov ph_name rows = Inr (Some e) \<Longrightarrow>
     name e = ph_name \<and>
     (\<exists>ems_name ip p. (ph_name, ems_name, ip) \<in> set rows \<and>
        provider_or_crud crud prov ems_name = Inr p \<and> e = instantiate ph_name ip p)"
proof (induction rows)
  case Nil
  then show ?case by simp
next
  case (Cons r rows)
  obtain nm ems_name ip where r: "r = (nm, ems_name, ip)" by (cases r) auto
  show ?case
  proof (cases "ph_name = nm")
    case True
    with Cons.prems r obtain p where
      "provider_or_crud crud prov ems_name = Inr p" "e = instantiate nm ip p"
      by (auto split: sum.splits)
    with True r show ?thesis by (auto simp: instantiate_def)
  next
    case False
    with Cons r show ?thesis by auto
  qed
qed

lemma find_by_loop_absent:
  "\<forall>r \<in> set rows. fst r \<noteq> ph_name \<Longrightarrow> find_by_loop crud prov ph_name rows = Inr None"
  by (induction rows) auto

text \<open>
  C2.  \<^verbatim>\<open>all(provider)\<close> and \<^verbatim>\<open>find_by(provider, name)\<close> discard the caller's provider:
  the result is the same for any two arguments.  With a collection-level provider filter
  the entities are exactly those of the rows whose management-system name is the filter's
  name, each with the filter's provider; without one, every produced entity carries the
  provider that \<^verbatim>\<open>get_crud_by_name\<close> returns for the row's management-system name.
\<close>

theorem all_find_by_discard_provider_argument:
  "all_servers self crud arg = all_servers self crud arg' \<and>
   find_by self crud arg ph_name = find_by self crud arg' ph_name \<and>
   (\<forall>fp. filters_provider self = Some fp \<longrightarrow>
      all_servers self crud arg =
        Inr (map (\<lambda>(nm, ems_name, ip). instantiate nm ip fp)
              (filter (\<lambda>(nm, ems_name, ip). ems_name = provider_name fp) (join_rows self))) \<and>
      (\<forall>e. find_by self crud arg ph_name = Inr (Some e) \<longrightarrow>
         provider e = Some fp \<and>
         (\<exists>ip. (ph_name, provider_name fp, ip) \<in> set (join_rows self)))) \<and>
   (filters_provider self = None \<longrightarrow>
      (\<forall>es. all_servers self crud arg = Inr es \<longrightarrow>
         list_all2 (\<lambda>e (nm, ems_name, ip). \<exists>p. crud ems_name = Inr p \<and> e = instantiate nm ip p)
           es (join_rows self)) \<and>
      (\<forall>e. find_by self crud arg ph_name = Inr (Some e) \<longrightarrow>
         (\<exists>ems_name ip p. (ph_name, ems_name, ip) \<in> set (join_rows self) \<and>
            crud ems_name = Inr p \<and> provider e = Some p)))"
proof (intro conjI allI impI)
  show "all_servers self crud arg = all_servers self crud arg'"
    by (simp add: all_servers_def)
  show "find_by self crud arg ph_name = find_by self crud arg' ph_name"
    by (simp add: find_by_def)
next
  fix fp assume fp: "filters_provider self = Some fp"
  show "all_servers self crud arg =
        Inr (map (\<lambda>(nm, ems_name, ip). instantiate nm ip fp)
              (filter (\<lambda>(nm, ems_name, ip). ems_name = provider_name fp) (join_rows self)))"
    using fp by (simp add: all_servers_def physical_server_query_def all_loop_filter)
  fix e assume "find_by self crud arg ph_name = Inr (Some e)"
  then have "find_by_loop crud (Some fp) ph_name
      (filter (\<lambda>(nm, ems_name, ip). ems_name = provider_name fp) (join_rows self)) = Inr (Some e)"
    using fp by (simp add: find_by_def physical_server_query_def)
  from find_by_loop_provider [OF this] obtain ems_name ip p where
    mem: "(ph_name, ems_name, ip) \<in> set (filter (\<lambda>(nm, ems_name, ip). ems_name = provider_name fp) (join_rows self))"
    and p: "provider_or_crud crud (Some fp) ems_name = Inr p"
    and e: "e = instantiate ph_name ip p"
    by blast
  from p have "p = fp" by (simp add: provider_or_crud_def)
  with e show "provider e = Some fp" by (simp add: instantiate_def)
  from mem show "\<exists>ip. (ph_name, provider_name fp, ip) \<in> set (join_rows self)" by auto
next
  assume nf: "filters_provider self = None"
  fix es assume "all_servers self crud arg = Inr es"
  then have "all_loop crud None (join_rows self) [] = Inr es"
    using nf by (simp add: all_servers_def physical_server_query_def)
  from all_loop_lookup [OF this]
  show "list_all2 (\<lambda>e (nm, ems_name, ip). \<exists>p. crud ems_name = Inr p \<and> e = instantiate nm ip p)
           es (join_rows self)"
    by simp
next
  assume nf: "filters_provider self = None"
  fix e assume "find_by self crud arg ph_name = Inr (Some e)"
  then have "find_by_loop crud None ph_name (join_rows self) = Inr (Some e)"
    using nf by (simp add: find_by_def physical_server_query_def)
  from find_by_loop_provider [OF this] obtain ems_name ip p where
    "(ph_name, ems_name, ip) \<in> set (join_rows self)"
    "provider_or_crud crud None ems_name = Inr p" "e = instantiate ph_name ip p"
    by blast
  then show "\<exists>ems_name ip p. (ph_name, ems_name, ip) \<in> set (join_rows self) \<and>
            crud ems_name = Inr p \<and> provider e = Some p"
    by (auto simp: provider_or_crud_def instantiate_def)
qed

theorem all_find_by_discard_provider_argument_witness:
  "all_servers filtered_collection sample_crud (Some other_provider)
     = Inr [instantiate ''srv1'' (Some ''10.0.0.1'') lenovo] \<and>
   all_servers filtered_collection sample_crud None
     = Inr [instantiate ''srv1'' (Some ''10.0.0.1'') lenovo] \<and>
   find_by unfiltered_collection sample_crud (Some lenovo) ''srv2''
     = Inr (Some (instantiate ''srv2'' None other_provider)) \<and>
   find_by unfiltered_collection sample_crud None ''srv2''
     = find_by unfiltered_collection sample_crud (Some lenovo) ''srv2''"
proof -
  have f: "filters_provider filtered_collection = Some lenovo"
    by (simp add: filtered_collection_def)
  have a: "all_servers filtered_collection sample_crud (Some other_provider)
     = Inr [instantiate ''srv1'' (Some ''10.0.0.1'') lenovo]"
    using all_find_by_discard_provider_argument
      [of filtered_collection sample_crud "Some other_provider" None "''srv1''",
        THEN conjunct2, THEN conjunct2, THEN conjunct1, rule_format, OF f, THEN conjunct1]
    by (simp add: filtered_collection_def sample_rows_def lenovo_def)
  have b: "all_servers filtered_collection sample_crud None
     = all_servers filtered_collection sample_crud (Some other_provider)"
    using all_find_by_discard_provider_argument
      [of filtered_collection sample_crud None "Some other_provider" "''srv1''"]
    by blast
  have c: "find_by unfiltered_collection sample_crud (Some lenovo) ''srv2''
     = Inr (Some (instantiate ''srv2'' None other_provider))"
    by (simp add: find_by_def physical_server_query_def unfiltered_collection_def
        sample_rows_def sample_crud_def provider_or_crud_def)
  have d: "find_by unfiltered_collection sample_crud None ''srv2''
     = find_by unfiltered_collection sample_crud (Some lenovo) ''srv2''"
    using all_find_by_discard_provider_argument
      [of unfiltered_collection sample_crud None "Some lenovo" "''srv2''"]
    by blast
  from a b c d show ?thesis by simp
qed

text \<open>
  C10.  When no row that survives the collection's provider filter has the requested name,
  \<^verbatim>\<open>find_by\<close> returns \<^verbatim>\<open>None\<close> and raises nothing.
\<close>

theorem find_by_absent_returns_None:
  "\<forall>r \<in> set (snd (physical_server_query self)). fst r \<noteq> ph_name \<Longrightarrow>
     find_by self crud arg ph_name = Inr None"
  by (simp add: find_by_def find_by_loop_absent split: prod.splits)

theorem find_by_absent_returns_None_witness:
  "find_by filtered_collection sample_crud (Some lenovo) ''srv2'' = Inr None \<and>
   find_by unfiltered_collection sample_crud None ''srv9'' = Inr None"
proof -
  have h1: "\<forall>r \<in> set (snd (physical_server_query filtered_collection)). fst r \<noteq> ''srv2''"
    by (simp add: physical_server_query_def filtered_collection_def sample_rows_def lenovo_def)
  have h2: "\<forall>r \<in> set (snd (physical_server_query unfiltered_collection)). fst r \<noteq> ''srv9''"
    by (simp add: physical_server_query_def unfiltered_collection_def sample_rows_def)
  show ?thesis
    using find_by_absent_returns_None [OF h1, of sample_crud "Some lenovo"]
      find_by_absent_returns_None [OF h2, of sample_crud None]
    by simp
qed

section \<open>Properties of validate_stats\<close>

lemmas py_int_eval =
  int_of_string_def strip_def is_space_def parse_nat_def is_digit_def digit_val_def

lemmas py_str_eval = show_int_def show_nat.simps digit_char_def

lemmas stats_eval =
  validate_stats_def STATS_TO_MATCH_def INVENTORY_TO_MATCH_def stat_try_def stat_except_def
  inventory_try_def inventory_except_def

lemmas sample_eval =
  srv1_def instantiate_def calls_of_def ui_text_def remote_stats_def remote_inventory_def

lemma py_int_error: "py_int v = Inl e \<Longrightarrow> e = ValueError \<or> e = TypeError"
  by (cases v) (auto split: option.splits)

lemma validate_stats_loops:
  assumes "outside_calls_return self calls ui server_stats server_inventory"
  shows "validate_stats self calls ui =
     (case stats_loop (name self) (accessor calls) server_stats STATS_TO_MATCH of
        Inl e \<Rightarrow> Inl e
      | Inr _ \<Rightarrow>
          inventory_loop (name self) (accessor calls) (InvMapping server_inventory)
            INVENTORY_TO_MATCH)"
  using assms
  by (cases ui) (auto simp: outside_calls_return_def validate_stats_def)

lemma stats_loop_append:
  "stats_loop nm acc ss (ks @ ks') =
     (case stats_loop nm acc ss ks of Inl e \<Rightarrow> Inl e | Inr _ \<Rightarrow> stats_loop nm acc ss ks')"
  by (induction ks) (auto split: sum.splits)

lemma stat_try_error:
  "stat_try nm acc ss k = Inl e \<Longrightarrow>
     (\<exists>m. e = StatsDoNotMatch m) \<or> e = KeyError \<or> e = ValueError \<or> e = TypeError \<or>
     acc k = Inl e"
  by (auto simp: stat_try_def split: sum.splits option.splits if_splits dest: py_int_error)

lemma stats_loop_error:
  "stats_loop nm acc ss ks = Inl e \<Longrightarrow>
     (\<exists>m. e = StatsDoNotMatch m) \<or>
     (\<exists>k. k \<in> set ks \<and> e = HostStatsNotContains (stats_missing_msg k)) \<or>
     (\<exists>k. k \<in> set ks \<and> e = ProviderHasNoProperty (no_property_msg k)) \<or>
     e = ValueError \<or> e = TypeError \<or>
     (\<exists>k. k \<in> set ks \<and> acc k = Inl e)"
proof (induction ks)
  case Nil
  then show ?case by simp
next
  case (Cons k ks)
  show ?case
  proof (cases "stat_try nm acc ss k")
    case (Inl e')
    with Cons.prems have e: "e = stat_except k e'" by simp
    from stat_try_error [OF Inl] e show ?thesis
      by (auto simp: stat_except_def)
  next
    case (Inr u)
    with Cons.prems have "stats_loop nm acc ss ks = Inl e" by simp
    from Cons.IH [OF this] show ?thesis by auto
  qed
qed

lemma inventory_try_error:
  "inventory_try nm acc var k = Inl e \<Longrightarrow>
     (\<exists>m. e = StatsDoNotMatch m) \<or> e = KeyError \<or> e = TypeError \<or> acc k = Inl e"
  by (cases var)
     (auto simp: inventory_try_def split: sum.splits option.splits if_splits)

lemma inventory_loop_error:
  "inventory_loop nm acc var ks = Inl e \<Longrightarrow>
     (\<exists>m. e = StatsDoNotMatch m) \<or>
     (\<exists>k. k \<in> set ks \<and> e = HostStatsNotContains (inventory_missing_msg k)) \<or>
     (\<exists>k. k \<in> set ks \<and> e = ProviderHasNoProperty (no_property_msg k)) \<or>
     e = TypeError \<or>
     (\<exists>k. k \<in> set ks \<and> acc k = Inl e)"
proof (induction ks arbitrary: var)
  case Nil
  then show ?case by simp
next
  case (Cons k ks)
  show ?case
  proof (cases "inventory_try nm acc var k")
    case (Inl e')
    with Cons.prems have e: "e = inventory_except k e'" by simp
    from inventory_try_error [OF Inl] e show ?thesis
      by (auto simp: inventory_except_def)
  next
    case (Inr var')
    with Cons.prems have "inventory_loop nm acc var' ks = Inl e" by simp
    from Cons.IH [OF this] show ?thesis by auto
  qed
qed

lemma validate_stats_error:
  assumes "validate_stats self calls ui = Inl e"
  shows "(\<exists>m. e = StatsDoNotMatch m) \<or>
     (\<exists>k. k \<in> set STATS_TO_MATCH \<and> e = HostStatsNotContains (stats_missing_msg k)) \<or>
     (\<exists>k. k \<in> set INVENTORY_TO_MATCH \<and> e = HostStatsNotContains (inventory_missing_msg k)) \<or>
     (\<exists>k. k \<in> set (STATS_TO_MATCH @ INVENTORY_TO_MATCH) \<and>
          e = ProviderHasNoProperty (no_property_msg k)) \<or>
     e = ValueError \<or> e = TypeError \<or>
     (\<exists>k. k \<in> set (STATS_TO_MATCH @ INVENTORY_TO_MATCH) \<and> accessor calls k = Inl e) \<or>
     (ui \<and> load_details_outcome calls = Inl e) \<or>
     (provider self = None \<and> e = AttributeError) \<or>
     mgmt_outcome calls = Inl e \<or> client_stats calls = Inl e \<or>
     client_inventory calls = Inl e \<or>
     (ui \<and> selenium_refresh_outcome calls = Inl e)"
proof -
  consider
      (pre) "(ui \<and> load_details_outcome calls = Inl e) \<or>
         (provider self = None \<and> e = AttributeError) \<or>
         mgmt_outcome calls = Inl e \<or> client_stats calls = Inl e \<or>
         client_inventory calls = Inl e \<or> (ui \<and> selenium_refresh_outcome calls = Inl e)"
    | (stats) ss where "stats_loop (name self) (accessor calls) ss STATS_TO_MATCH = Inl e"
    | (inv) si where
        "inventory_loop (name self) (accessor calls) (InvMapping si) INVENTORY_TO_MATCH = Inl e"
    using assms
    by (auto simp: validate_stats_def split: sum.splits option.splits if_splits)
  then show ?thesis
  proof cases
    case pre
    then show ?thesis by blast
  next
    case stats
    from stats_loop_error [OF stats] show ?thesis by auto
  next
    case inv
    from inventory_loop_error [OF inv] show ?thesis by auto
  qed
qed

lemma stats_loop_pass:
  assumes "acc ''cores_capacity'' = Inr uc" "py_int uc = Inr cfme_cores"
    and "ss ''cores_capacity'' = Some rc" "py_int rc = Inr server_cores"
    and "acc ''memory_capacity'' = Inr um" "py_int um = Inr cfme_memory"
    and "ss ''memory_capacity'' = Some rm" "py_int rm = Inr server_memory"
  shows "stats_loop nm acc ss STATS_TO_MATCH =
     (if server_cores \<noteq> cfme_cores
      then Inl (StatsDoNotMatch (stat_mismatch_msg ''cores_capacity'' nm server_cores cfme_cores))
      else if server_memory \<noteq> cfme_memory
      then Inl (StatsDoNotMatch (stat_mismatch_msg ''memory_capacity'' nm server_memory cfme_memory))
      else Inr ())"
  using assms by (simp add: STATS_TO_MATCH_def stat_try_def stat_except_def)

lemma inventory_loop_pass:
  assumes "acc ''power_state'' = Inr cfme_power" "si ''power_state'' = Some server_power"
  shows "inventory_loop nm acc (InvMapping si) INVENTORY_TO_MATCH =
     (if \<not> py_eq server_power cfme_power
      then Inl (StatsDoNotMatch (inventory_mismatch_msg ''power_state'' nm server_power cfme_power))
      else Inr ())"
  using assms by (simp add: INVENTORY_TO_MATCH_def inventory_try_def inventory_except_def)

text \<open>
  C1 (as amended).  When the outside calls return, every accessor returns a value, both
  mappings hold their keys and all four statistic values convert with \<^verbatim>\<open>int()\<close>,
  \<^verbatim>\<open>validate_stats\<close> raises \<^verbatim>\<open>StatsDoNotMatch\<close> for the first key, in the order
  cores_capacity, memory_capacity, power_state, whose two values differ (statistics as
  integers, the inventory value by \<^verbatim>\<open>!=\<close>); the message names the key, the server and
  both values.  It raises nothing when no key differs.
\<close>

theorem validate_stats_mismatch_or_pass:
  assumes "outside_calls_return self calls ui server_stats server_inventory"
    and "accessor calls ''cores_capacity'' = Inr uc" "py_int uc = Inr cfme_cores"
    and "server_stats ''cores_capacity'' = Some rc" "py_int rc = Inr server_cores"
    and "accessor calls ''memory_capacity'' = Inr um" "py_int um = Inr cfme_memory"
    and "server_stats ''memory_capacity'' = Some rm" "py_int rm = Inr server_memory"
    and "accessor calls ''power_state'' = Inr cfme_power"
    and "server_inventory ''power_state'' = Some server_power"
  shows "validate_stats self calls ui =
     (if server_cores \<noteq> cfme_cores
      then Inl (StatsDoNotMatch
             (stat_mismatch_msg ''cores_capacity'' (name self) server_cores cfme_cores))
      else if server_memory \<noteq> cfme_memory
      then Inl (StatsDoNotMatch
             (stat_mismatch_msg ''memory_capacity'' (name self) server_memory cfme_memory))
      else if \<not> py_eq server_power cfme_power
      then Inl (StatsDoNotMatch
             (inventory_mismatch_msg ''power_state'' (name self) server_power cfme_power))
      else Inr ())"
proof -
  note loops = validate_stats_loops [OF assms(1)]
  have st: "stats_loop (name self) (accessor calls) server_stats STATS_TO_MATCH =
     (if server_cores \<noteq> cfme_cores
      then Inl (StatsDoNotMatch
             (stat_mismatch_msg ''cores_capacity'' (name self) server_cores cfme_cores))
      else if server_memory \<noteq> cfme_memory
      then Inl (StatsDoNotMatch
             (stat_mismatch_msg ''memory_capacity'' (name self) server_memory cfme_memory))
      else Inr ())"
    using assms(2-9) by (rule stats_loop_pass)
  have inv: "inventory_loop (name self) (accessor calls) (InvMapping server_inventory)
       INVENTORY_TO_MATCH =
     (if \<not> py_eq server_power cfme_power
      then Inl (StatsDoNotMatch
             (inventory_mismatch_msg ''power_state'' (name self) server_power cfme_power))
      else Inr ())"
    using assms(10,11) by (rule inventory_loop_pass)
  show ?thesis
    unfolding loops st inv by simp
qed

theorem validate_stats_mismatch_or_pass_witness:
  "validate_stats srv1
     (calls_of (ui_text ''16'' ''16384'' ''on'')
        (remote_stats (PyInt 16) (PyInt 32768)) (remote_inventory (PyStr ''on''))) False
   = Inl (StatsDoNotMatch
       ''The memory_capacity stat does not match. (server: srv1, server stat: 32768, cfme stat: 16384)'')
   \<and>
   validate_stats srv1
     (calls_of (ui_text ''16'' ''32768'' ''on'')
        (remote_stats (PyInt 16) (PyInt 32768)) (remote_inventory (PyStr ''on''))) True
   = Inr ()"
proof -
  have r: "outside_calls_return srv1 (calls_of acc (remote_stats (PyInt 16) (PyInt 32768))
      (remote_inventory (PyStr ''on''))) ui
      (remote_stats (PyInt 16) (PyInt 32768)) (remote_inventory (PyStr ''on''))" for acc ui
    by (simp add: outside_calls_return_def sample_eval)
  have a: "validate_stats srv1
     (calls_of (ui_text ''16'' ''16384'' ''on'')
        (remote_stats (PyInt 16) (PyInt 32768)) (remote_inventory (PyStr ''on''))) False
     = Inl (StatsDoNotMatch
       ''The memory_capacity stat does not match. (server: srv1, server stat: 32768, cfme stat: 16384)'')"
    using validate_stats_mismatch_or_pass [OF r,
        of "ui_text ''16'' ''16384'' ''on''" "PyStr ''16''" 16 "PyInt 16" 16
           "PyStr ''16384''" 16384 "PyInt 32768" 32768 "PyStr ''on''" "PyStr ''on''" False]
    by (simp add: sample_eval py_int_eval py_str_eval stat_mismatch_msg_def)
  have b: "validate_stats srv1
     (calls_of (ui_text ''16'' ''32768'' ''on'')
        (remote_stats (PyInt 16) (PyInt 32768)) (remote_inventory (PyStr ''on''))) True
     = Inr ()"
    using validate_stats_mismatch_or_pass [OF r,
        of "ui_text ''16'' ''32768'' ''on''" "PyStr ''16''" 16 "PyInt 16" 16
           "PyStr ''32768''" 32768 "PyInt 32768" 32768 "PyStr ''on''" "PyStr ''on''" True]
    by (simp add: sample_eval py_int_eval)
  from a b show ?thesis by simp
qed

text \<open>
  The claim as written fails: with the text \<^verbatim>\<open>unknown\<close> on both sides for
  cores_capacity every key's UI value equals its remote value, and the call raises the
  \<^verbatim>\<open>ValueError\<close> of \<^verbatim>\<open>int('unknown')\<close>.
\<close>

theorem validate_stats_equal_values_counterexample:
  "accessor (calls_of (ui_text ''unknown'' ''16384'' ''on'')
        (remote_stats (PyStr ''unknown'') (PyStr ''16384'')) (remote_inventory (PyStr ''on'')))
     ''cores_capacity'' = Inr (PyStr ''unknown'') \<and>
   remote_stats (PyStr ''unknown'') (PyStr ''16384'') ''cores_capacity'' = Some (PyStr ''unknown'') \<and>
   accessor (calls_of (ui_text ''unknown'' ''16384'' ''on'')
        (remote_stats (PyStr ''unknown'') (PyStr ''16384'')) (remote_inventory (PyStr ''on'')))
     ''memory_capacity'' = Inr (PyStr ''16384'') \<and>
   remote_stats (PyStr ''unknown'') (PyStr ''16384'') ''memory_capacity'' = Some (PyStr ''16384'') \<and>
   accessor (calls_of (ui_text ''unknown'' ''16384'' ''on'')
        (remote_stats (PyStr ''unknown'') (PyStr ''16384'')) (remote_inventory (PyStr ''on'')))
     ''power_state'' = Inr (PyStr ''on'') \<and>
   remote_inventory (PyStr ''on'') ''power_state'' = Some (PyStr ''on'') \<and>
   validate_stats srv1
     (calls_of (ui_text ''unknown'' ''16384'' ''on'')
        (remote_stats (PyStr ''unknown'') (PyStr ''16384'')) (remote_inventory (PyStr ''on'')))
     False = Inl ValueError"
  by (simp add: sample_eval stats_eval py_int_eval)

lemma stats_loop_first_failure:
  assumes "STATS_TO_MATCH = ks @ k # rest"
    and "stats_loop nm acc ss ks = Inr ()"
    and "stat_try nm acc ss k = Inl e"
  shows "stats_loop nm acc ss STATS_TO_MATCH = Inl (stat_except k e)"
  using assms(2,3) unfolding assms(1) by (simp add: stats_loop_append)

text \<open>
  C4 (as amended).  Once the outside calls before the loops have returned: if, for the
  first key that does not pass, the accessor returned a value (for a statistic, one that
  \<^verbatim>\<open>int()\<close> converts) and the remote mapping lacks the key, \<^verbatim>\<open>HostStatsNotContains\<close>
  naming the key is raised; if the accessor call for that key raised
  \<^verbatim>\<open>AttributeError\<close>, \<^verbatim>\<open>ProviderHasNoProperty\<close> naming the key is raised.  Every error
  that \<^verbatim>\<open>validate_stats\<close> raises is one of these two, a \<^verbatim>\<open>StatsDoNotMatch\<close>, the
  \<^verbatim>\<open>ValueError\<close> or \<^verbatim>\<open>TypeError\<close> of a conversion or subscript, or an exception that
  one of the outside calls raised (\<^verbatim>\<open>AttributeError\<close> for an entity without a provider).
\<close>

theorem validate_stats_error_kinds:
  "(\<forall>ss si ks k rest u a.
      outside_calls_return self calls ui ss si \<longrightarrow> STATS_TO_MATCH = ks @ k # rest \<longrightarrow>
      stats_loop (name self) (accessor calls) ss ks = Inr () \<longrightarrow>
      accessor calls k = Inr u \<longrightarrow> py_int u = Inr a \<longrightarrow> ss k = None \<longrightarrow>
      validate_stats self calls ui = Inl (HostStatsNotContains (stats_missing_msg k))) \<and>
   (\<forall>ss si u.
      outside_calls_return self calls ui ss si \<longrightarrow>
      stats_loop (name self) (accessor calls) ss STATS_TO_MATCH = Inr () \<longrightarrow>
      accessor calls ''power_state'' = Inr u \<longrightarrow> si ''power_state'' = None \<longrightarrow>
      validate_stats self calls ui
        = Inl (HostStatsNotContains (inventory_missing_msg ''power_state''))) \<and>
   (\<forall>ss si ks k rest.
      outside_calls_return self calls ui ss si \<longrightarrow> STATS_TO_MATCH = ks @ k # rest \<longrightarrow>
      stats_loop (name self) (accessor calls) ss ks = Inr () \<longrightarrow>
      accessor calls k = Inl AttributeError \<longrightarrow>
      validate_stats self calls ui = Inl (ProviderHasNoProperty (no_property_msg k))) \<and>
   (\<forall>ss si.
      outside_calls_return self calls ui ss si \<longrightarrow>
      stats_loop (name self) (accessor calls) ss STATS_TO_MATCH = Inr () \<longrightarrow>
      accessor calls ''power_state'' = Inl AttributeError \<longrightarrow>
      validate_stats self calls ui
        = Inl (ProviderHasNoProperty (no_property_msg ''power_state''))) \<and>
   (\<forall>e. validate_stats self calls ui = Inl e \<longrightarrow>
      (\<exists>m. e = StatsDoNotMatch m) \<or>
      (\<exists>k. k \<in> set STATS_TO_MATCH \<and> e = HostStatsNotContains (stats_missing_msg k)) \<or>
      (\<exists>k. k \<in> set INVENTORY_TO_MATCH \<and> e = HostStatsNotContains (inventory_missing_msg k)) \<or>
      (\<exists>k. k \<in> set (STATS_TO_MATCH @ INVENTORY_TO_MATCH) \<and>
           e = ProviderHasNoProperty (no_property_msg k)) \<or>
      e = ValueError \<or> e = TypeError \<or>
      (\<exists>k. k \<in> set (STATS_TO_MATCH @ INVENTORY_TO_MATCH) \<and> accessor calls k = Inl e) \<or>
      (ui \<and> load_details_outcome calls = Inl e) \<or>
      (provider self = None \<and> e = AttributeError) \<or>
      mgmt_outcome calls = Inl e \<or> client_stats calls = Inl e \<or>
      client_inventory calls = Inl e \<or>
      (ui \<and> selenium_refresh_outcome calls = Inl e))"
proof (intro conjI allI impI)
  fix ss si ks k rest u a
  assume r: "outside_calls_return self calls ui ss si"
    and split: "STATS_TO_MATCH = ks @ k # rest"
    and pass: "stats_loop (name self) (accessor calls) ss ks = Inr ()"
    and "accessor calls k = Inr u" "py_int u = Inr a" "ss k = None"
  then have "stat_try (name self) (accessor calls) ss k = Inl KeyError"
    by (simp add: stat_try_def)
  from stats_loop_first_failure [OF split pass this]
  show "validate_stats self calls ui = Inl (HostStatsNotContains (stats_missing_msg k))"
    by (simp add: validate_stats_loops [OF r] stat_except_def)
next
  fix ss si u
  assume r: "outside_calls_return self calls ui ss si"
    and pass: "stats_loop (name self) (accessor calls) ss STATS_TO_MATCH = Inr ()"
    and "accessor calls ''power_state'' = Inr u" "si ''power_state'' = None"
  then show "validate_stats self calls ui
        = Inl (HostStatsNotContains (inventory_missing_msg ''power_state''))"
    by (simp add: validate_stats_loops [OF r] INVENTORY_TO_MATCH_def inventory_try_def
        inventory_except_def)
next
  fix ss si ks k rest
  assume r: "outside_calls_return self calls ui ss si"
    and split: "STATS_TO_MATCH = ks @ k # rest"
    and pass: "stats_loop (name self) (accessor calls) ss ks = Inr ()"
    and "accessor calls k = Inl AttributeError"
  then have "stat_try (name self) (accessor calls) ss k = Inl AttributeError"
    by (simp add: stat_try_def)
  from stats_loop_first_failure [OF split pass this]
  show "validate_stats self calls ui = Inl (ProviderHasNoProperty (no_property_msg k))"
    by (simp add: validate_stats_loops [OF r] stat_except_def)
next
  fix ss si
  assume r: "outside_calls_return self calls ui ss si"
    and pass: "stats_loop (name self) (accessor calls) ss STATS_TO_MATCH = Inr ()"
    and "accessor calls ''power_state'' = Inl AttributeError"
  then show "validate_stats self calls ui
        = Inl (ProviderHasNoProperty (no_property_msg ''power_state''))"
    by (simp add: validate_stats_loops [OF r] INVENTORY_TO_MATCH_def inventory_try_def
        inventory_except_def)
next
  fix e
  assume "validate_stats self calls ui = Inl e"
  then show "(\<exists>m. e = StatsDoNotMatch m) \<or>
      (\<exists>k. k \<in> set STATS_TO_MATCH \<and> e = HostStatsNotContains (stats_missing_msg k)) \<or>
      (\<exists>k. k \<in> set INVENTORY_TO_MATCH \<and> e = HostStatsNotContains (inventory_missing_msg k)) \<or>
      (\<exists>k. k \<in> set (STATS_TO_MATCH @ INVENTORY_TO_MATCH) \<and>
           e = ProviderHasNoProperty (no_property_msg k)) \<or>
      e = ValueError \<or> e = TypeError \<or>
      (\<exists>k. k \<in> set (STATS_TO_MATCH @ INVENTORY_TO_MATCH) \<and> accessor calls k = Inl e) \<or>
      (ui \<and> load_details_outcome calls = Inl e) \<or>
      (provider self = None \<and> e = AttributeError) \<or>
      mgmt_outcome calls = Inl e \<or> client_stats calls = Inl e \<or>
      client_inventory calls = Inl e \<or>
      (ui \<and> selenium_refresh_outcome calls = Inl e)"
    by (rule validate_stats_error)
qed

theorem validate_stats_error_kinds_witness:
  "validate_stats srv1
     (calls_of (ui_text ''16'' ''16384'' ''on'')
        [''cores_capacity'' \<mapsto> PyInt 16] (remote_inventory (PyStr ''on''))) False
   = Inl (HostStatsNotContains (stats_missing_msg ''memory_capacity'')) \<and>
   validate_stats srv1
     (calls_of ((ui_text ''16'' ''16384'' ''on'')(''power_state'' := Inl AttributeError))
        (remote_stats (PyInt 16) (PyInt 16384)) (remote_inventory (PyStr ''on''))) False
   = Inl (ProviderHasNoProperty (no_property_msg ''power_state''))"
proof -
  let ?c1 = "calls_of (ui_text ''16'' ''16384'' ''on'')
        [''cores_capacity'' \<mapsto> PyInt 16] (remote_inventory (PyStr ''on''))"
  let ?c2 = "calls_of ((ui_text ''16'' ''16384'' ''on'')(''power_state'' := Inl AttributeError))
        (remote_stats (PyInt 16) (PyInt 16384)) (remote_inventory (PyStr ''on''))"
  have r1: "outside_calls_return srv1 ?c1 False
      [''cores_capacity'' \<mapsto> PyInt 16] (remote_inventory (PyStr ''on''))"
    by (simp add: outside_calls_return_def sample_eval)
  have s1: "STATS_TO_MATCH = [''cores_capacity''] @ ''memory_capacity'' # []"
    by (simp add: STATS_TO_MATCH_def)
  have p1: "stats_loop (name srv1) (accessor ?c1) [''cores_capacity'' \<mapsto> PyInt 16]
      [''cores_capacity''] = Inr ()"
    by (simp add: sample_eval stat_try_def py_int_eval)
  have a1: "accessor ?c1 ''memory_capacity'' = Inr (PyStr ''16384'')"
    by (simp add: sample_eval)
  have i1: "py_int (PyStr ''16384'') = Inr 16384"
    by (simp add: py_int_eval)
  have m1: "[''cores_capacity'' \<mapsto> PyInt 16] ''memory_capacity'' = None"
    by simp
  have a: "validate_stats srv1 ?c1 False
      = Inl (HostStatsNotContains (stats_missing_msg ''memory_capacity''))"
    using validate_stats_error_kinds [of srv1 ?c1 False, THEN conjunct1, rule_format,
        OF r1 s1 p1 a1 i1 m1] .
  have r2: "outside_calls_return srv1 ?c2 False
      (remote_stats (PyInt 16) (PyInt 16384)) (remote_inventory (PyStr ''on''))"
    by (simp add: outside_calls_return_def sample_eval)
  have p2: "stats_loop (name srv1) (accessor ?c2) (remote_stats (PyInt 16) (PyInt 16384))
      STATS_TO_MATCH = Inr ()"
    by (simp add: sample_eval STATS_TO_MATCH_def stat_try_def py_int_eval)
  have a2: "accessor ?c2 ''power_state'' = Inl AttributeError"
    by (simp add: sample_eval)
  have b: "validate_stats srv1 ?c2 False
      = Inl (ProviderHasNoProperty (no_property_msg ''power_state''))"
    using validate_stats_error_kinds [of srv1 ?c2 False, THEN conjunct2, THEN conjunct2,
        THEN conjunct2, THEN conjunct1, rule_format, OF r2 p2 a2] .
  from a b show ?thesis by simp
qed

text \<open>
  The claim as written fails: a remote memory_capacity of \<^verbatim>\<open>n/a\<close> makes
  \<^verbatim>\<open>validate_stats\<close> raise \<^verbatim>\<open>ValueError\<close>, which is none of the three kinds.
\<close>

theorem validate_stats_error_kinds_counterexample:
  "validate_stats srv1
     (calls_of (ui_text ''16'' ''16384'' ''on'')
        (remote_stats (PyInt 16) (PyStr ''n/a'')) (remote_inventory (PyStr ''on''))) False
   = Inl ValueError"
  by (simp add: sample_eval stats_eval py_int_eval)

lemma stats_loop_not_an_integer:
  assumes "acc k = Inr (PyStr s)" "int_of_string s = None"
  shows "stats_loop nm acc ss (k # rest) = Inl ValueError"
  using assms by (simp add: stat_try_def stat_except_def)

text \<open>
  C9.  A statistic that is a non-numeric string, read from the UI or returned by the
  client, makes \<^verbatim>\<open>validate_stats\<close> raise the \<^verbatim>\<open>ValueError\<close> of \<^verbatim>\<open>int()\<close>: neither
  \<^verbatim>\<open>except\<close> clause catches it, and it is none of the three documented errors.
\<close>

theorem validate_stats_raises_ValueError:
  "validate_stats srv1
     (calls_of (ui_text ''N/A'' ''16384'' ''on'')
        (remote_stats (PyInt 16) (PyInt 16384)) (remote_inventory (PyStr ''on''))) False
   = Inl ValueError \<and>
   validate_stats srv1
     (calls_of (ui_text ''16'' ''16384'' ''on'')
        (remote_stats (PyStr ''sixteen'') (PyInt 16384)) (remote_inventory (PyStr ''on''))) True
   = Inl ValueError \<and>
   stat_except ''cores_capacity'' ValueError = ValueError \<and>
   (\<forall>m. ValueError \<noteq> StatsDoNotMatch m \<and> ValueError \<noteq> HostStatsNotContains m \<and>
        ValueError \<noteq> ProviderHasNoProperty m)"
  by (simp add: sample_eval stats_eval py_int_eval)

section \<open>Properties of exists\<close>

lemma get_entity_from_found:
  "(\<exists>i. get_entity_from k view nm = Inr i) = (\<exists>page \<in> set view. nm \<in> set page)"
  by (induction view arbitrary: k) auto

lemma get_entity_from_absent:
  "(get_entity_from k view nm = Inl e) = (e = ItemNotFound \<and> \<not> (\<exists>page \<in> set view. nm \<in> set page))"
  by (induction view arbitrary: k) auto

text \<open>
  C5.  When the navigation to the listing returns, \<^verbatim>\<open>exists\<close> is true exactly when some
  page of the listing shows an entity of that name; the lookup fails with
  \<^verbatim>\<open>ItemNotFound\<close> exactly when no page does, and \<^verbatim>\<open>exists\<close> then returns false instead
  of raising.
\<close>

theorem exists_iff_on_some_page:
  "exists self (Inr view) = Inr (\<exists>page \<in> set view. name self \<in> set page) \<and>
   (get_entity view (name self) = Inl ItemNotFound)
     = (\<not> (\<exists>page \<in> set view. name self \<in> set page)) \<and>
   (\<forall>e. get_entity view (name self) = Inl e \<longrightarrow> exists self (Inr view) = Inr False)"
proof -
  have absent: "(get_entity view (name self) = Inl e)
      = (e = ItemNotFound \<and> \<not> (\<exists>page \<in> set view. name self \<in> set page))" for e
    unfolding get_entity_def by (rule get_entity_from_absent)
  have found: "(\<exists>i. get_entity view (name self) = Inr i)
      = (\<exists>page \<in> set view. name self \<in> set page)"
    unfolding get_entity_def by (rule get_entity_from_found)
  show ?thesis
  proof (cases "get_entity view (name self)")
    case (Inl e)
    with absent [of e] show ?thesis by (simp add: exists_def)
  next
    case (Inr i)
    with found absent [of ItemNotFound] show ?thesis by (auto simp: exists_def)
  qed
qed

theorem exists_iff_on_some_page_witness:
  "exists srv1 (Inr three_pages) = Inr True \<and>
   exists (instantiate ''srv9'' None lenovo) (Inr three_pages) = Inr False \<and>
   get_entity three_pages ''srv9'' = Inl ItemNotFound"
proof -
  have a: "exists srv1 (Inr three_pages) = Inr True"
    using exists_iff_on_some_page [of srv1 three_pages, THEN conjunct1]
    by (simp add: srv1_def instantiate_def three_pages_def)
  have b: "get_entity three_pages ''srv9'' = Inl ItemNotFound"
    using exists_iff_on_some_page [of "instantiate ''srv9'' None lenovo" three_pages,
        THEN conjunct2, THEN conjunct1]
    by (simp add: instantiate_def three_pages_def)
  have c: "exists (instantiate ''srv9'' None lenovo) (Inr three_pages) = Inr False"
    using exists_iff_on_some_page [of "instantiate ''srv9'' None lenovo" three_pages,
        THEN conjunct2, THEN conjunct2, rule_format, of ItemNotFound] b
    by (simp add: instantiate_def)
  from a b c show ?thesis by simp
qed

section \<open>Properties of the wait-poller\<close>

lemma later_refl: "later w w"
  by (simp add: later_def)

lemma later_trans: "later w w1 \<Longrightarrow> later w1 w2 \<Longrightarrow> later w w2"
  by (auto simp: later_def elim: suffix_order.trans)


lemma clock_sleep: "clock (sleep d w) = clock w + d"
  by (simp add: sleep_def)

lemma later_clock: "later w w' \<Longrightarrow> clock w \<le> clock w'"
  by (simp add: later_def)

lemma advancesD: "advances p \<Longrightarrow> p w = Some (r, w') \<Longrightarrow> later w w'"
  by (auto simp: advances_def)

lemma returnsD:
  assumes "returns p"
  shows "\<exists>r w'. p w = Some (r, w')"
proof -
  from assms have "p w \<noteq> None" unfolding returns_def by blast
  then show ?thesis by (cases "p w") auto
qed

lemma advances_return: "advances (return_prog x)"
  by (simp add: advances_def return_prog_def later_refl)

lemma advances_raise: "advances (raise_prog e)"
  by (simp add: advances_def raise_prog_def later_refl)

lemma advances_perform: "advances (perform env a)"
  by (auto simp: advances_def perform_def later_def suffix_Cons split: prod.splits)

lemma advances_bind:
  assumes "advances m" "\<And>x. advances (f x)"
  shows "advances (bind_prog m f)"
  unfolding advances_def
proof (intro allI impI)
  fix w r w'
  assume b: "bind_prog m f w = Some (r, w')"
  show "later w w'"
  proof (cases "m w")
    case None
    with b show ?thesis by (simp add: bind_prog_def)
  next
    case (Some y)
    obtain r1 w1 where y: "y = (r1, w1)" by (cases y) auto
    from assms(1) Some y have l1: "later w w1" by (auto dest: advancesD)
    show ?thesis
    proof (cases r1)
      case (Inl e)
      with b Some y l1 show ?thesis by (simp add: bind_prog_def)
    next
      case (Inr x)
      with b Some y have "f x w1 = Some (r, w')" by (simp add: bind_prog_def)
      with assms(2) have "later w1 w'" by (auto dest: advancesD)
      with l1 show ?thesis by (rule later_trans)
    qed
  qed
qed

lemma advances_catch:
  assumes "advances m" "\<And>e. advances (h e)"
  shows "advances (catch_prog m h)"
  unfolding advances_def
proof (intro allI impI)
  fix w r w'
  assume b: "catch_prog m h w = Some (r, w')"
  show "later w w'"
  proof (cases "m w")
    case None
    with b show ?thesis by (simp add: catch_prog_def)
  next
    case (Some y)
    obtain r1 w1 where y: "y = (r1, w1)" by (cases y) auto
    from assms(1) Some y have l1: "later w w1" by (auto dest: advancesD)
    show ?thesis
    proof (cases r1)
      case (Inr x)
      with b Some y l1 show ?thesis by (simp add: catch_prog_def)
    next
      case (Inl e)
      with b Some y have "h e w1 = Some (r, w')" by (simp add: catch_prog_def)
      with assms(2) have "later w1 w'" by (auto dest: advancesD)
      with l1 show ?thesis by (rule later_trans)
    qed
  qed
qed

lemma returns_return: "returns (return_prog x)"
  by (simp add: returns_def return_prog_def)

lemma returns_raise: "returns (raise_prog e)"
  by (simp add: returns_def raise_prog_def)

lemma returns_perform: "returns (perform env a)"
  by (simp add: returns_def perform_def split: prod.splits)

lemma returns_bind:
  assumes "returns m" "\<And>x. returns (f x)"
  shows "returns (bind_prog m f)"
  unfolding returns_def
proof
  fix w
  from returnsD [OF assms(1)] obtain r w1 where m: "m w = Some (r, w1)" by blast
  show "bind_prog m f w \<noteq> None"
  proof (cases r)
    case (Inl e)
    with m show ?thesis by (simp add: bind_prog_def)
  next
    case (Inr x)
    with m assms(2) [of x] show ?thesis by (simp add: bind_prog_def returns_def)
  qed
qed

lemma returns_catch:
  assumes "returns m" "\<And>e. returns (h e)"
  shows "returns (catch_prog m h)"
  unfolding returns_def
proof
  fix w
  from returnsD [OF assms(1)] obtain r w1 where m: "m w = Some (r, w1)" by blast
  show "catch_prog m h w \<noteq> None"
  proof (cases r)
    case (Inr x)
    with m show ?thesis by (simp add: catch_prog_def)
  next
    case (Inl e)
    with m assms(2) [of e] show ?thesis by (simp add: catch_prog_def returns_def)
  qed
qed


text \<open>The attempts of a wait, and what a wait that returns has seen on its last one.\<close>

lemma attempts_prepend:
  assumes "attempts failed delay deadline (sleep delay w1) w0"
    and "failed w w1" "clock (sleep delay w1) \<le> deadline"
  shows "attempts failed delay deadline w w0"
  using assms(1)
proof (induction rule: attempts.induct)
  case first_attempt
  from attempts.first_attempt [of failed delay deadline w] assms(2,3)
  show ?case by (rule attempts.next_attempt)
next
  case (next_attempt wa wb)
  from next_attempt.IH next_attempt.hyps(2,3) show ?case by (rule attempts.next_attempt)
qed


lemma attempts_mono:
  assumes "attempts failed delay deadline w w0"
    and "\<And>a b. failed a b \<Longrightarrow> failed' a b"
  shows "attempts failed' delay deadline w w0"
  using assms(1)
proof (induction rule: attempts.induct)
  case first_attempt
  show ?case by (rule attempts.first_attempt)
next
  case (next_attempt wa wb)
  from next_attempt.IH assms(2) [OF next_attempt.hyps(2)] next_attempt.hyps(3)
  show ?case by (rule attempts.next_attempt)
qed


lemma wait_for_loop_attempts:
  assumes "wait_for_loop func num_sec delay None st_time w = Some (r, w')"
  shows "\<exists>w0. attempts (failed_attempt func) delay (st_time + num_sec) w w0 \<and>
     last_attempt func delay (st_time + num_sec) w0 r w'"
proof -
  have "fail_func = None \<longrightarrow>
      (\<exists>w0. attempts (failed_attempt func) delay (st_time + num_sec) w w0 \<and>
         last_attempt func delay (st_time + num_sec) w0 (fst y) (snd y))"
    if "wait_for_loop func num_sec delay fail_func st_time w = Some y" for fail_func y
    using that
  proof (induction rule: wait_for_loop.raw_induct [rotated, consumes 1, case_names step])
    case (step loop func num_sec delay fail_func st_time w y)
    show ?case
    proof (intro impI)
      assume ff: "fail_func = None"
      note body = step.hyps [unfolded ff]
      from body have "func w \<noteq> None" by (cases "func w") simp_all
      then obtain r1 w1 where f: "func w = Some (r1, w1)" by (cases "func w") auto
      note here = attempts.first_attempt [of "failed_attempt func" delay "st_time + num_sec" w]
      show "\<exists>w0. attempts (failed_attempt func) delay (st_time + num_sec) w w0 \<and>
         last_attempt func delay (st_time + num_sec) w0 (fst y) (snd y)"
      proof (cases r1)
        case (Inl e)
        from body have y: "y = (Inl e, w1)" unfolding f Inl by simp
        have "last_attempt func delay (st_time + num_sec) w (fst y) (snd y)"
          unfolding last_attempt_def y using f Inl by simp
        with here show ?thesis by blast
      next
        case (Inr out)
        show ?thesis
        proof (cases "truthy out")
          case True
          from body True have y: "y = (Inr out, w1)" unfolding f Inr by simp
          have "last_attempt func delay (st_time + num_sec) w (fst y) (snd y)"
            unfolding last_attempt_def y using f Inr True by simp
          with here show ?thesis by blast
        next
          case False
          show ?thesis
          proof (cases "st_time + num_sec < clock (sleep delay w1)")
            case True
            from body False True have y: "y = (Inl (TimedOutError out), sleep delay w1)"
              unfolding f Inr by simp
            have "last_attempt func delay (st_time + num_sec) w (fst y) (snd y)"
              unfolding last_attempt_def y using f Inr False True by simp
            with here show ?thesis by blast
          next
            case notyet: False
            from body False notyet
            have "loop func num_sec delay None st_time (sleep delay w1) = Some y"
              unfolding f Inr by simp
            from step.IH [OF this] obtain w0 where
              a: "attempts (failed_attempt func) delay (st_time + num_sec) (sleep delay w1) w0"
              and c: "last_attempt func delay (st_time + num_sec) w0 (fst y) (snd y)"
              by blast
            from f Inr False have fl: "failed_attempt func w w1"
              by (auto simp: failed_attempt_def)
            from notyet have "clock (sleep delay w1) \<le> st_time + num_sec" by simp
            from attempts_prepend [OF a fl this] c show ?thesis by blast
          qed
        qed
      qed
    qed
  qed
  from this [OF assms] show ?thesis by simp
qed

lemma attempts_same_loop:
  assumes "attempts (failed_attempt func) delay (st_time + num_sec) w w0"
  shows "wait_for_loop func num_sec delay None st_time w0
     = wait_for_loop func num_sec delay None st_time w"
  using assms
proof (induction rule: attempts.induct)
  case first_attempt
  show ?case by simp
next
  case (next_attempt wa wb)
  from next_attempt.hyps(2) obtain out where
    f: "func wa = Some (Inr out, wb)" and nt: "\<not> truthy out"
    by (auto simp: failed_attempt_def)
  from next_attempt.hyps(3) have notyet: "\<not> st_time + num_sec < clock (sleep delay wb)"
    by simp
  have "wait_for_loop func num_sec delay None st_time wa
      = wait_for_loop func num_sec delay None st_time (sleep delay wb)"
    by (subst wait_for_loop.simps) (simp add: f nt notyet)
  with next_attempt.IH show ?case by simp
qed

lemma last_attempt_loop:
  assumes "last_attempt func delay (st_time + num_sec) w0 r w'"
  shows "wait_for_loop func num_sec delay None st_time w0 = Some (r, w')"
  using assms unfolding last_attempt_def
  by (subst wait_for_loop.simps) auto

lemma wait_for_iff:
  "(wait_for func num_sec delay None w = Some (r, w')) =
   (\<exists>w0. attempts (failed_attempt func) delay (clock w + num_sec) w w0 \<and>
      last_attempt func delay (clock w + num_sec) w0 r w')"
proof
  assume "wait_for func num_sec delay None w = Some (r, w')"
  then have "wait_for_loop func num_sec delay None (clock w) w = Some (r, w')"
    by (simp add: wait_for_def)
  then show "\<exists>w0. attempts (failed_attempt func) delay (clock w + num_sec) w w0 \<and>
      last_attempt func delay (clock w + num_sec) w0 r w'"
    by (rule wait_for_loop_attempts)
next
  assume "\<exists>w0. attempts (failed_attempt func) delay (clock w + num_sec) w w0 \<and>
      last_attempt func delay (clock w + num_sec) w0 r w'"
  then obtain w0 where a: "attempts (failed_attempt func) delay (clock w + num_sec) w w0"
    and l: "last_attempt func delay (clock w + num_sec) w0 r w'" by blast
  from attempts_same_loop [OF a] last_attempt_loop [OF l]
  show "wait_for func num_sec delay None w = Some (r, w')"
    by (simp add: wait_for_def)
qed

lemma wait_for_Inr:
  "(wait_for func num_sec delay None w = Some (Inr out, w')) =
   (\<exists>w0. attempts (failed_attempt func) delay (clock w + num_sec) w w0 \<and>
      func w0 = Some (Inr out, w') \<and> truthy out)"
  unfolding wait_for_iff last_attempt_def by (simp; blast)

lemma wait_for_Inl:
  "(wait_for func num_sec delay None w = Some (Inl e, w')) =
   (\<exists>w0. attempts (failed_attempt func) delay (clock w + num_sec) w w0 \<and>
      (func w0 = Some (Inl e, w') \<or>
       (\<exists>out w1. func w0 = Some (Inr out, w1) \<and> \<not> truthy out \<and> w' = sleep delay w1 \<and>
          clock w + num_sec < clock w' \<and> e = TimedOutError out)))"
  unfolding wait_for_iff last_attempt_def by (simp; blast)

text \<open>With a positive delay a wait on a predicate that returns does return.\<close>

lemma wait_for_loop_returns:
  assumes "0 < delay" "returns func" "advances func"
  shows "\<exists>y. wait_for_loop func num_sec delay None st_time w = Some y"
proof (induction "st_time + num_sec + 1 - clock w" arbitrary: w rule: less_induct)
  case less
  from returnsD [OF assms(2)] obtain r1 w1 where f: "func w = Some (r1, w1)" by blast
  from assms(3) f have l: "later w w1" by (rule advancesD)
  show ?case
  proof (cases r1)
    case (Inl e)
    with f show ?thesis by (subst wait_for_loop.simps) simp
  next
    case (Inr out)
    show ?thesis
    proof (cases "truthy out")
      case True
      with f Inr show ?thesis by (subst wait_for_loop.simps) simp
    next
      case False
      show ?thesis
      proof (cases "st_time + num_sec < clock (sleep delay w1)")
        case True
        with f Inr False show ?thesis by (subst wait_for_loop.simps) simp
      next
        case notyet: False
        from l assms(1) have "clock w < clock (sleep delay w1)"
          by (simp add: clock_sleep later_def)
        with notyet have "st_time + num_sec + 1 - clock (sleep delay w1) < st_time + num_sec + 1 - clock w"
          by simp
        from less [OF this] obtain y where
          "wait_for_loop func num_sec delay None st_time (sleep delay w1) = Some y" by blast
        with f Inr False notyet show ?thesis by (subst wait_for_loop.simps) simp
      qed
    qed
  qed
qed

section \<open>The operations move the world forward and return\<close>

lemma bind_prog_Inr:
  "(bind_prog m f w = Some (Inr y, w')) =
     (\<exists>x w1. m w = Some (Inr x, w1) \<and> f x w1 = Some (Inr y, w'))"
proof (cases "m w")
  case None
  then show ?thesis by (simp add: bind_prog_def)
next
  case (Some a)
  obtain r1 w1 where a: "a = (r1, w1)" by (cases a) auto
  show ?thesis by (cases r1) (simp_all add: bind_prog_def Some a)
qed

lemma bind_prog_Inl:
  "(bind_prog m f w = Some (Inl e, w')) =
     (m w = Some (Inl e, w') \<or> (\<exists>x w1. m w = Some (Inr x, w1) \<and> f x w1 = Some (Inl e, w')))"
proof (cases "m w")
  case None
  then show ?thesis by (simp add: bind_prog_def)
next
  case (Some a)
  obtain r1 w1 where a: "a = (r1, w1)" by (cases a) auto
  show ?thesis by (cases r1) (simp_all add: bind_prog_def Some a)
qed

lemma return_prog_eq: "(return_prog x w = Some (r, w')) = (r = Inr x \<and> w' = w)"
  by (auto simp: return_prog_def)

lemma raise_prog_eq: "(raise_prog e w = Some (r, w')) = (r = Inl e \<and> w' = w)"
  by (auto simp: raise_prog_def)

lemma perform_outcome:
  assumes "perform env a w = Some (r, w')"
  shows "r = fst (env (trace w) (clock w) a)"
  using assms by (auto simp: perform_def split: prod.splits)

lemma advances_last_refresh_date: "advances (last_refresh_date env prov)"
  by (cases prov) (simp_all add: last_refresh_date_def advances_raise advances_perform)

lemma returns_last_refresh_date: "returns (last_refresh_date env prov)"
  by (cases prov) (simp_all add: last_refresh_date_def returns_raise returns_perform)

lemma advances_execute_button: "advances (execute_button env self button opt handle_alert)"
  unfolding execute_button_def
  by (intro advances_bind advances_perform advances_return)

lemma returns_execute_button: "returns (execute_button env self button opt handle_alert)"
  unfolding execute_button_def
  by (intro returns_bind returns_perform returns_return)


lemma returns_wait_for:
  assumes "0 < delay" "returns func" "advances func"
  shows "returns (wait_for func num_sec delay None)"
  unfolding returns_def wait_for_def
  using wait_for_loop_returns [OF assms] by simp

lemma advances_refresh_poll:
  "advances (bind_prog (last_refresh_date env prov)
      (\<lambda>d. return_prog (PyBool (\<not> py_eq last_refresh d))))"
  by (intro advances_bind advances_last_refresh_date advances_return)

lemma returns_refresh_poll:
  "returns (bind_prog (last_refresh_date env prov)
      (\<lambda>d. return_prog (PyBool (\<not> py_eq last_refresh d))))"
  by (intro returns_bind returns_last_refresh_date returns_return)


lemma returns_refresh: "returns (refresh env self prov handle_alert)"
  unfolding refresh_def
  by (intro returns_bind returns_last_refresh_date returns_execute_button returns_return
      returns_wait_for advances_refresh_poll returns_refresh_poll) simp






lemma advances_send_request: "advances (send_request env url verify_ssl)"
  unfolding send_request_def
  by (intro advances_catch advances_perform) (simp add: advances_return advances_raise)

lemma returns_send_request: "returns (send_request env url verify_ssl)"
  unfolding send_request_def
  by (intro returns_catch returns_perform) (simp add: returns_return returns_raise)

lemma py_eq_refl: "py_eq v v"
  by (cases v) simp_all

section \<open>Properties of refresh\<close>

lemma execute_button_Inr:
  "(execute_button env self button opt handle_alert w = Some (Inr u, w')) =
     button_pressed env self button opt handle_alert w w'"
  unfolding execute_button_def button_pressed_def
  by (auto simp: bind_prog_Inr return_prog_eq)

lemma execute_button_Inl:
  "(execute_button env self button opt handle_alert w = Some (Inl e, w')) =
     button_raised env self button opt handle_alert e w w'"
  unfolding execute_button_def button_raised_def
  by (auto simp: bind_prog_Inl return_prog_eq)

lemma refresh_poll_Inr:
  "(bind_prog (last_refresh_date env (Some p))
      (\<lambda>d. return_prog (PyBool (\<not> py_eq stamp d))) w = Some (Inr out, w')) =
   (\<exists>d. perform env (LastRefreshDate (provider_name p)) w = Some (Inr d, w') \<and>
      out = PyBool (\<not> py_eq stamp d))"
  by (auto simp: bind_prog_Inr return_prog_eq last_refresh_date_def)

lemma refresh_poll_Inl:
  "(bind_prog (last_refresh_date env (Some p))
      (\<lambda>d. return_prog (PyBool (\<not> py_eq stamp d))) w = Some (Inl e, w')) =
   (perform env (LastRefreshDate (provider_name p)) w = Some (Inl e, w'))"
  by (auto simp: bind_prog_Inl return_prog_eq last_refresh_date_def)

lemma refresh_poll_failed:
  "failed_attempt (bind_prog (last_refresh_date env (Some p))
      (\<lambda>d. return_prog (PyBool (\<not> py_eq stamp d))))
   = same_timestamp_read env (provider_name p) stamp"
  by (intro ext) (auto simp: failed_attempt_def same_timestamp_read_def refresh_poll_Inr)

lemma refresh_wait_Inr:
  "(wait_for (bind_prog (last_refresh_date env (Some p))
        (\<lambda>d. return_prog (PyBool (\<not> py_eq stamp d)))) 300 30 None w2 = Some (Inr out, w')) =
   (\<exists>w0 d. attempts (same_timestamp_read env (provider_name p) stamp) 30 (clock w2 + 300) w2 w0 \<and>
      perform env (LastRefreshDate (provider_name p)) w0 = Some (Inr d, w') \<and>
      \<not> py_eq stamp d \<and> out = PyBool True)"
  unfolding wait_for_iff last_attempt_def refresh_poll_failed refresh_poll_Inr
  by auto

lemma refresh_wait_Inl:
  "(wait_for (bind_prog (last_refresh_date env (Some p))
        (\<lambda>d. return_prog (PyBool (\<not> py_eq stamp d)))) 300 30 None w2 = Some (Inl e, w')) =
   (\<exists>w0. attempts (same_timestamp_read env (provider_name p) stamp) 30 (clock w2 + 300) w2 w0 \<and>
      (perform env (LastRefreshDate (provider_name p)) w0 = Some (Inl e, w') \<or>
       (\<exists>w3. same_timestamp_read env (provider_name p) stamp w0 w3 \<and> w' = sleep 30 w3 \<and>
          clock w2 + 300 < clock w' \<and> e = TimedOutError (PyBool False))))"
  unfolding wait_for_iff last_attempt_def refresh_poll_failed refresh_poll_Inr refresh_poll_Inl
    same_timestamp_read_def
  by auto

lemma refresh_Inr:
  "(refresh env self (Some p) handle_alert w = Some (Inr u, w')) =
     inventory_refreshed env self (provider_name p) handle_alert w w'"
  unfolding refresh_def inventory_refreshed_def bind_prog_Inr return_prog_eq
    refresh_wait_Inr execute_button_Inr
  by (simp add: last_refresh_date_def) blast

lemma refresh_Inl:
  "(refresh env self (Some p) handle_alert w = Some (Inl e, w')) =
     refresh_raised env self (provider_name p) handle_alert e w w'"
  unfolding refresh_def refresh_raised_def bind_prog_Inl bind_prog_Inr return_prog_eq
    refresh_wait_Inl execute_button_Inr execute_button_Inl
  by (simp add: last_refresh_date_def)

lemma refresh_no_provider:
  "refresh env self None handle_alert w = Some (Inl AttributeError, w)"
  by (simp add: refresh_def last_refresh_date_def bind_prog_def raise_prog_def)

text \<open>An environment that raises nothing, and one whose timestamp stays the same.\<close>

lemma perform_outcome_value:
  assumes "\<forall>tr t a. \<exists>v. fst (env tr t a) = Inr v"
  shows "perform env a w \<noteq> Some (Inl e, w')"
proof
  assume "perform env a w = Some (Inl e, w')"
  from perform_outcome [OF this] assms show False by (metis Inl_Inr_False)
qed

lemma same_timestamp_always:
  assumes "\<forall>tr t. fst (env tr t (LastRefreshDate pn)) = Inr d0"
    and "perform env (LastRefreshDate pn) w = Some (Inr d, w')"
  shows "d = d0"
  using perform_outcome [OF assms(2)] assms(1) by simp

lemma button_pressed_later:
  assumes "button_pressed env self button opt handle_alert w w'"
  shows "later w w'"
proof -
  from assms have "execute_button env self button opt handle_alert w = Some (Inr (), w')"
    by (simp add: execute_button_Inr)
  with advances_execute_button show ?thesis by (rule advancesD)
qed

lemma button_never_raised:
  assumes "\<forall>tr t a. \<exists>v. fst (env tr t a) = Inr v"
  shows "\<not> button_raised env self button opt handle_alert e w w'"
  unfolding button_raised_def
  by (simp add: perform_outcome_value [OF assms])

lemma refresh_frozen:
  assumes never: "\<forall>tr t a. \<exists>v. fst (env tr t a) = Inr v"
    and same: "\<forall>tr t. fst (env tr t (LastRefreshDate (provider_name p))) = Inr d0"
  shows "\<exists>w'. refresh env self (Some p) handle_alert w
            = Some (Inl (TimedOutError (PyBool False)), w') \<and> clock w + 300 < clock w'"
proof -
  note noraise = perform_outcome_value [OF never]
  from returnsD [OF returns_refresh] obtain r w' where
    res: "refresh env self (Some p) handle_alert w = Some (r, w')" by blast
  show ?thesis
  proof (cases r)
    case (Inr u)
    with res have "inventory_refreshed env self (provider_name p) handle_alert w w'"
      by (simp add: refresh_Inr)
    then obtain stamp w1 w0 d where
      a: "perform env (LastRefreshDate (provider_name p)) w = Some (Inr stamp, w1)" and
      b: "perform env (LastRefreshDate (provider_name p)) w0 = Some (Inr d, w')" and
      c: "\<not> py_eq stamp d"
      unfolding inventory_refreshed_def by blast
    from same_timestamp_always [of env "provider_name p" d0 w stamp w1, OF same a]
      same_timestamp_always [of env "provider_name p" d0 w0 d w', OF same b]
    have "stamp = d0" "d = d0" by simp_all
    with c py_eq_refl [of d0] show ?thesis by simp
  next
    case (Inl e)
    with res have err: "refresh env self (Some p) handle_alert w = Some (Inl e, w')" by simp
    then have "refresh_raised env self (provider_name p) handle_alert e w w'"
      by (simp add: refresh_Inl)
    then obtain stamp w1 w2 where
      a: "perform env (LastRefreshDate (provider_name p)) w = Some (Inr stamp, w1)" and
      b: "button_pressed env self ''Configuration'' ''Refresh Relationships and Power States''
            handle_alert w1 w2" and
      t: "e = TimedOutError (PyBool False)" "clock w2 + 300 < clock w'"
      unfolding refresh_raised_def
      by (simp add: noraise button_never_raised [OF never]) blast
    from advancesD [OF advances_perform a] button_pressed_later [OF b]
    have "clock w \<le> clock w2" by (auto simp: later_def)
    with t err show ?thesis by auto
  qed
qed

text \<open>
  C7.  \<^verbatim>\<open>refresh(provider)\<close> always returns or raises.  It returns exactly when it read
  the provider's last-refresh timestamp, pressed the refresh button, and, after polls that
  read the same timestamp again, 30 seconds apart and each begun within 300 seconds of
  the button, a poll read a different timestamp.  It raises exactly when a read or the
  button raised, or when the sleep after a poll that read the same timestamp ended more
  than 300 seconds after the button: then the exception is \<^verbatim>\<open>TimedOutError\<close>.  Without
  a provider it raises \<^verbatim>\<open>AttributeError\<close>.  Where nothing raises and the timestamp never
  changes, it raises \<^verbatim>\<open>TimedOutError\<close>.
\<close>

theorem refresh_waits_for_new_timestamp:
  "returns (refresh env self prov handle_alert) \<and>
   (\<forall>p w w'. prov = Some p \<longrightarrow>
      (refresh env self prov handle_alert w = Some (Inr (), w')) =
        inventory_refreshed env self (provider_name p) handle_alert w w' \<and>
      (\<forall>e. (refresh env self prov handle_alert w = Some (Inl e, w')) =
        refresh_raised env self (provider_name p) handle_alert e w w')) \<and>
   (\<forall>w. prov = None \<longrightarrow>
      refresh env self prov handle_alert w = Some (Inl AttributeError, w)) \<and>
   (\<forall>p d0 w. prov = Some p \<longrightarrow> (\<forall>tr t a. \<exists>v. fst (env tr t a) = Inr v) \<longrightarrow>
      (\<forall>tr t. fst (env tr t (LastRefreshDate (provider_name p))) = Inr d0) \<longrightarrow>
      (\<exists>w'. refresh env self prov handle_alert w
            = Some (Inl (TimedOutError (PyBool False)), w') \<and> clock w + 300 < clock w'))"
proof (intro conjI allI impI)
  show "returns (refresh env self prov handle_alert)" by (rule returns_refresh)
next
  fix p w w' assume "prov = Some p"
  then show "(refresh env self prov handle_alert w = Some (Inr (), w')) =
        inventory_refreshed env self (provider_name p) handle_alert w w'"
    by (simp add: refresh_Inr)
next
  fix p w w' e assume "prov = Some p"
  then show "(refresh env self prov handle_alert w = Some (Inl e, w')) =
        refresh_raised env self (provider_name p) handle_alert e w w'"
    by (simp add: refresh_Inl)
next
  fix w assume "prov = None"
  then show "refresh env self prov handle_alert w = Some (Inl AttributeError, w)"
    by (simp add: refresh_no_provider)
next
  fix p d0 w
  assume "prov = Some p" "\<forall>tr t a. \<exists>v. fst (env tr t a) = Inr v"
    "\<forall>tr t. fst (env tr t (LastRefreshDate (provider_name p))) = Inr d0"
  then show "\<exists>w'. refresh env self prov handle_alert w
            = Some (Inl (TimedOutError (PyBool False)), w') \<and> clock w + 300 < clock w'"
    using refresh_frozen [of env p d0 self handle_alert w] by simp
qed

lemma refresh_sample_run:
  "refresh sample_env srv1 (Some lenovo) False world0 =
     Some (Inr (),
       \<lparr>clock = 4,
        trace =
          [(LastRefreshDate ''lenovo'', Inr (PyInt 1)),
           (ItemSelect ''Configuration'' ''Refresh Relationships and Power States'' False,
            Inr PyNone),
           (NavigateTo ''srv1'' ''Details'', Inr PyNone),
           (LastRefreshDate ''lenovo'', Inr (PyInt 0))]\<rparr>)"
  by code_simp

lemma frozen_env_never_raises: "\<forall>tr t a. \<exists>v. fst (frozen_env tr t a) = Inr v"
proof (intro allI)
  fix tr :: "(action \<times> outcome) list" and t :: nat and a :: action
  show "\<exists>v. fst (frozen_env tr t a) = Inr v"
    by (cases a) (simp_all add: frozen_env_def)
qed

theorem refresh_waits_for_new_timestamp_witness:
  "inventory_refreshed sample_env srv1 ''lenovo'' False world0
     \<lparr>clock = 4,
      trace =
        [(LastRefreshDate ''lenovo'', Inr (PyInt 1)),
         (ItemSelect ''Configuration'' ''Refresh Relationships and Power States'' False,
          Inr PyNone),
         (NavigateTo ''srv1'' ''Details'', Inr PyNone),
         (LastRefreshDate ''lenovo'', Inr (PyInt 0))]\<rparr> \<and>
   (\<exists>w'. refresh frozen_env srv1 (Some lenovo) False world0
            = Some (Inl (TimedOutError (PyBool False)), w') \<and> clock world0 + 300 < clock w')"
proof -
  have same: "\<forall>tr t. fst (frozen_env tr t (LastRefreshDate (provider_name lenovo)))
      = Inr (PyStr ''2018-01-01'')"
    by (simp add: frozen_env_def)
  have pn: "provider_name lenovo = ''lenovo''" by (simp add: lenovo_def)
  note run = refresh_waits_for_new_timestamp [of sample_env srv1 "Some lenovo" False,
      THEN conjunct2, THEN conjunct1, rule_format, OF refl, THEN conjunct1,
      THEN iffD1, OF refresh_sample_run]
  note frozen = refresh_waits_for_new_timestamp [of frozen_env srv1 "Some lenovo" False,
      THEN conjunct2, THEN conjunct2, THEN conjunct2, rule_format,
      OF refl frozen_env_never_raises [rule_format] same [rule_format], of world0]
  from run [unfolded pn] frozen show ?thesis by (rule conjI)
qed

section \<open>Properties of wait_for_state_change\<close>











section \<open>Properties of the wait for the management controller\<close>

lemma send_request_Inr:
  "(send_request env url verify_ssl w = Some (Inr ok, w')) =
   (perform env (HttpGet url verify_ssl) w = Some (Inr ok, w') \<or>
    (perform env (HttpGet url verify_ssl) w = Some (Inl ConnectionError, w') \<and>
     ok = PyBool False))"
proof (cases "perform env (HttpGet url verify_ssl) w")
  case None
  then show ?thesis by (simp add: send_request_def catch_prog_def)
next
  case (Some a)
  obtain r1 w1 where a: "a = (r1, w1)" by (cases a) auto
  show ?thesis
    by (cases r1)
       (auto simp: send_request_def catch_prog_def Some a return_prog_def raise_prog_def)
qed

lemma send_request_Inl:
  "(send_request env url verify_ssl w = Some (Inl e, w')) =
   (perform env (HttpGet url verify_ssl) w = Some (Inl e, w') \<and> e \<noteq> ConnectionError)"
proof (cases "perform env (HttpGet url verify_ssl) w")
  case None
  then show ?thesis by (simp add: send_request_def catch_prog_def)
next
  case (Some a)
  obtain r1 w1 where a: "a = (r1, w1)" by (cases a) auto
  show ?thesis
    by (cases r1)
       (auto simp: send_request_def catch_prog_def Some a return_prog_def raise_prog_def)
qed

lemma send_request_ok:
  "(\<exists>out. send_request env url verify_ssl w = Some (Inr out, w') \<and> truthy out) =
   probe_ok env url verify_ssl w w'"
  unfolding send_request_Inr probe_ok_def by auto

lemma send_request_failed:
  "(send_request env url verify_ssl w = Some (Inr out, w') \<and> \<not> truthy out) =
   probe_failed env url verify_ssl out w w'"
  unfolding send_request_Inr probe_failed_def by auto

lemma send_request_raised:
  "(send_request env url verify_ssl w = Some (Inl e, w')) =
   probe_raised env url verify_ssl e w w'"
  unfolding send_request_Inl probe_raised_def by simp

lemma send_request_failed_attempt:
  "failed_attempt (send_request env url verify_ssl) = probe_not_ok env url verify_ssl"
  by (intro ext) (simp add: failed_attempt_def probe_not_ok_def send_request_failed)

lemma advances_stopped_poll:
  "advances (bind_prog (send_request env url verify_ssl)
      (\<lambda>ok. return_prog (PyBool (\<not> truthy ok))))"
  by (intro advances_bind advances_send_request advances_return)

lemma returns_stopped_poll:
  "returns (bind_prog (send_request env url verify_ssl)
      (\<lambda>ok. return_prog (PyBool (\<not> truthy ok))))"
  by (intro returns_bind returns_send_request returns_return)

lemma stopped_poll_Inr:
  "(bind_prog (send_request env url verify_ssl)
      (\<lambda>ok. return_prog (PyBool (\<not> truthy ok))) w = Some (Inr out, w')) =
   (\<exists>ok. send_request env url verify_ssl w = Some (Inr ok, w') \<and> out = PyBool (\<not> truthy ok))"
  by (auto simp: bind_prog_Inr return_prog_eq)

lemma stopped_poll_Inl:
  "(bind_prog (send_request env url verify_ssl)
      (\<lambda>ok. return_prog (PyBool (\<not> truthy ok))) w = Some (Inl e, w')) =
   probe_raised env url verify_ssl e w w'"
  by (auto simp: bind_prog_Inl return_prog_eq send_request_raised)

lemma stopped_poll_stopped:
  "(\<exists>out. bind_prog (send_request env url verify_ssl)
      (\<lambda>ok. return_prog (PyBool (\<not> truthy ok))) w = Some (Inr out, w') \<and> truthy out) =
   probe_not_ok env url verify_ssl w w'"
proof -
  have "(\<exists>out. bind_prog (send_request env url verify_ssl)
      (\<lambda>ok. return_prog (PyBool (\<not> truthy ok))) w = Some (Inr out, w') \<and> truthy out) =
    (\<exists>ok. send_request env url verify_ssl w = Some (Inr ok, w') \<and> \<not> truthy ok)"
    unfolding stopped_poll_Inr by auto
  then show ?thesis unfolding send_request_failed probe_not_ok_def .
qed

lemma stopped_poll_answered:
  "(bind_prog (send_request env url verify_ssl)
      (\<lambda>ok. return_prog (PyBool (\<not> truthy ok))) w = Some (Inr out, w') \<and> \<not> truthy out) =
   (probe_ok env url verify_ssl w w' \<and> out = PyBool False)"
proof -
  have "(bind_prog (send_request env url verify_ssl)
      (\<lambda>ok. return_prog (PyBool (\<not> truthy ok))) w = Some (Inr out, w') \<and> \<not> truthy out) =
    ((\<exists>ok. send_request env url verify_ssl w = Some (Inr ok, w') \<and> truthy ok) \<and>
     out = PyBool False)"
    unfolding stopped_poll_Inr by auto
  then show ?thesis unfolding send_request_ok .
qed

lemma stopped_poll_failed_attempt:
  "failed_attempt (bind_prog (send_request env url verify_ssl)
      (\<lambda>ok. return_prog (PyBool (\<not> truthy ok)))) = probe_ok env url verify_ssl"
  by (intro ext) (simp add: failed_attempt_def stopped_poll_answered)

text \<open>The first wait: until a probe fails.\<close>

lemma stop_wait_Inr:
  "(\<exists>out. wait_for (bind_prog (send_request env url verify_ssl)
        (\<lambda>ok. return_prog (PyBool (\<not> truthy ok)))) num_sec delay None w = Some (Inr out, w1)) =
   (\<exists>w0 out. attempts (probe_ok env url verify_ssl) delay (clock w + num_sec) w w0 \<and>
      probe_failed env url verify_ssl out w0 w1)"
proof -
  let ?stopped = "bind_prog (send_request env url verify_ssl)
        (\<lambda>ok. return_prog (PyBool (\<not> truthy ok)))"
  have "(\<exists>out. wait_for ?stopped num_sec delay None w = Some (Inr out, w1)) =
    (\<exists>w0. attempts (probe_ok env url verify_ssl) delay (clock w + num_sec) w w0 \<and>
       (\<exists>out. ?stopped w0 = Some (Inr out, w1) \<and> truthy out))"
    unfolding wait_for_Inr stopped_poll_failed_attempt by blast
  then show ?thesis unfolding stopped_poll_stopped probe_not_ok_def by blast
qed

lemma stop_wait_Inl:
  "(wait_for (bind_prog (send_request env url verify_ssl)
        (\<lambda>ok. return_prog (PyBool (\<not> truthy ok)))) num_sec delay None w = Some (Inl e, w')) =
   (\<exists>w0. attempts (probe_ok env url verify_ssl) delay (clock w + num_sec) w w0 \<and>
      (probe_raised env url verify_ssl e w0 w' \<or>
       (\<exists>w3. probe_ok env url verify_ssl w0 w3 \<and> w' = sleep delay w3 \<and>
          clock w + num_sec < clock w' \<and> e = TimedOutError (PyBool False))))"
proof -
  let ?stopped = "bind_prog (send_request env url verify_ssl)
        (\<lambda>ok. return_prog (PyBool (\<not> truthy ok)))"
  have timed_out: "(\<exists>out w1. ?stopped w0 = Some (Inr out, w1) \<and> \<not> truthy out \<and>
        w' = sleep delay w1 \<and> clock w + num_sec < clock w' \<and> e = TimedOutError out) =
     (\<exists>w3. probe_ok env url verify_ssl w0 w3 \<and> w' = sleep delay w3 \<and>
        clock w + num_sec < clock w' \<and> e = TimedOutError (PyBool False))" for w0
  proof -
    have "(\<exists>out w1. ?stopped w0 = Some (Inr out, w1) \<and> \<not> truthy out \<and>
        w' = sleep delay w1 \<and> clock w + num_sec < clock w' \<and> e = TimedOutError out) =
      (\<exists>out w1. (?stopped w0 = Some (Inr out, w1) \<and> \<not> truthy out) \<and>
        w' = sleep delay w1 \<and> clock w + num_sec < clock w' \<and> e = TimedOutError out)"
      by blast
    then show ?thesis unfolding stopped_poll_answered by blast
  qed
  show ?thesis
    unfolding wait_for_Inl stopped_poll_failed_attempt stopped_poll_Inl timed_out ..
qed

text \<open>The second wait: until a probe is answered with success.\<close>

lemma start_wait_Inr:
  "(\<exists>out. wait_for (send_request env url verify_ssl) num_sec delay None w
      = Some (Inr out, w')) =
   (\<exists>w0. attempts (probe_not_ok env url verify_ssl) delay (clock w + num_sec) w w0 \<and>
      probe_ok env url verify_ssl w0 w')"
proof -
  have "(\<exists>out. wait_for (send_request env url verify_ssl) num_sec delay None w
      = Some (Inr out, w')) =
    (\<exists>w0. attempts (probe_not_ok env url verify_ssl) delay (clock w + num_sec) w w0 \<and>
       (\<exists>out. send_request env url verify_ssl w0 = Some (Inr out, w') \<and> truthy out))"
    unfolding wait_for_Inr send_request_failed_attempt by blast
  then show ?thesis unfolding send_request_ok .
qed

lemma start_wait_Inl:
  "(wait_for (send_request env url verify_ssl) num_sec delay None w = Some (Inl e, w')) =
   (\<exists>w0. attempts (probe_not_ok env url verify_ssl) delay (clock w + num_sec) w w0 \<and>
      (probe_raised env url verify_ssl e w0 w' \<or>
       (\<exists>out w3. probe_failed env url verify_ssl out w0 w3 \<and> w' = sleep delay w3 \<and>
          clock w + num_sec < clock w' \<and> e = TimedOutError out)))"
proof -
  have timed_out: "(\<exists>out w1. send_request env url verify_ssl w0 = Some (Inr out, w1) \<and>
        \<not> truthy out \<and> w' = sleep delay w1 \<and> clock w + num_sec < clock w' \<and>
        e = TimedOutError out) =
     (\<exists>out w3. probe_failed env url verify_ssl out w0 w3 \<and> w' = sleep delay w3 \<and>
        clock w + num_sec < clock w' \<and> e = TimedOutError out)" for w0
  proof -
    have "(\<exists>out w1. send_request env url verify_ssl w0 = Some (Inr out, w1) \<and>
        \<not> truthy out \<and> w' = sleep delay w1 \<and> clock w + num_sec < clock w' \<and>
        e = TimedOutError out) =
      (\<exists>out w1. (send_request env url verify_ssl w0 = Some (Inr out, w1) \<and> \<not> truthy out) \<and>
        w' = sleep delay w1 \<and> clock w + num_sec < clock w' \<and> e = TimedOutError out)"
      by blast
    then show ?thesis unfolding send_request_failed .
  qed
  show ?thesis
    unfolding wait_for_Inl send_request_failed_attempt send_request_raised timed_out ..
qed

lemma returns_wait_restart_bmc:
  "0 < param_default delay_arg 5 \<Longrightarrow>
     returns (wait_restart_bmc env self delay_arg num_sec_arg verify_ssl_arg)"
  unfolding wait_restart_bmc_def Let_def
  by (intro returns_bind returns_wait_for returns_stopped_poll advances_stopped_poll
      returns_send_request advances_send_request returns_return)

lemma wait_restart_bmc_phases:
  "wait_restart_bmc env self delay_arg num_sec_arg verify_ssl_arg =
     bind_prog (wait_for
         (bind_prog (send_request env (bmc_url self) (param_default verify_ssl_arg False))
            (\<lambda>ok. return_prog (PyBool (\<not> truthy ok))))
         (param_default num_sec_arg 300) (param_default delay_arg 5) None) (\<lambda>_.
     bind_prog (wait_for (send_request env (bmc_url self) (param_default verify_ssl_arg False))
         (param_default num_sec_arg 300) (param_default delay_arg 5) None) (\<lambda>_.
     return_prog ()))"
  by (simp add: wait_restart_bmc_def Let_def)

lemma wait_restart_bmc_Inr:
  "(wait_restart_bmc env self delay_arg num_sec_arg verify_ssl_arg w = Some (Inr u, w')) =
   bmc_restarted env (bmc_url self) (param_default verify_ssl_arg False)
     (param_default num_sec_arg 300) (param_default delay_arg 5) w w'"
proof -
  let ?url = "bmc_url self" and ?v = "param_default verify_ssl_arg False"
  let ?n = "param_default num_sec_arg 300" and ?d = "param_default delay_arg 5"
  let ?send = "send_request env ?url ?v"
  let ?stopped = "bind_prog ?send (\<lambda>ok. return_prog (PyBool (\<not> truthy ok)))"
  have "(wait_restart_bmc env self delay_arg num_sec_arg verify_ssl_arg w = Some (Inr u, w')) =
    (\<exists>w1. (\<exists>out. wait_for ?stopped ?n ?d None w = Some (Inr out, w1)) \<and>
       (\<exists>out. wait_for ?send ?n ?d None w1 = Some (Inr out, w')))"
    unfolding wait_restart_bmc_phases bind_prog_Inr return_prog_eq by (simp; blast)
  then show ?thesis
    unfolding stop_wait_Inr start_wait_Inr bmc_restarted_def by blast
qed

lemma wait_restart_bmc_Inl:
  "(wait_restart_bmc env self delay_arg num_sec_arg verify_ssl_arg w = Some (Inl e, w')) =
   bmc_wait_raised env (bmc_url self) (param_default verify_ssl_arg False)
     (param_default num_sec_arg 300) (param_default delay_arg 5) e w w'"
proof -
  let ?url = "bmc_url self" and ?v = "param_default verify_ssl_arg False"
  let ?n = "param_default num_sec_arg 300" and ?d = "param_default delay_arg 5"
  let ?send = "send_request env ?url ?v"
  let ?stopped = "bind_prog ?send (\<lambda>ok. return_prog (PyBool (\<not> truthy ok)))"
  have "(wait_restart_bmc env self delay_arg num_sec_arg verify_ssl_arg w = Some (Inl e, w')) =
    (wait_for ?stopped ?n ?d None w = Some (Inl e, w') \<or>
     (\<exists>w1. (\<exists>out. wait_for ?stopped ?n ?d None w = Some (Inr out, w1)) \<and>
        wait_for ?send ?n ?d None w1 = Some (Inl e, w')))"
    unfolding wait_restart_bmc_phases bind_prog_Inl return_prog_eq by (simp; blast)
  then show ?thesis
    unfolding stop_wait_Inr stop_wait_Inl start_wait_Inl bmc_wait_raised_def by blast
qed

text \<open>
  C8.  \<^verbatim>\<open>_wait_restart_bmc\<close> makes two waits, one after the other, each on a plain GET of
  \<^verbatim>\<open>https://<ip_address>\<close>, each with a budget of 300 seconds and a 5-second delay unless
  the caller gives others.  It returns exactly when the first wait ended with a probe that
  failed (a connection error, or an answer that is not a success) after probes that were
  all answered with success, and the second wait, begun there, ended with a probe
  answered with success after probes that all failed; the probes of a wait are \<^verbatim>\<open>delay\<close>
  seconds apart and each begins within \<^verbatim>\<open>num_sec\<close> seconds of the start of its wait.
  It raises exactly when a probe raised something other than a connection error, or
  when the sleep after a probe of a wait ended more than \<^verbatim>\<open>num_sec\<close> seconds after the
  start of that wait: the first wait while the endpoint still answered, the second
  while it still did not.  With a positive delay one of the two happens.
\<close>

theorem wait_restart_bmc_stops_then_starts:
  "(0 < (case delay_arg of None \<Rightarrow> 5 | Some d \<Rightarrow> d) \<longrightarrow>
      returns (wait_restart_bmc env self delay_arg num_sec_arg verify_ssl_arg)) \<and>
   (\<forall>w w'.
      (wait_restart_bmc env self delay_arg num_sec_arg verify_ssl_arg w = Some (Inr (), w')) =
        bmc_restarted env
          (''https://'' @ (case ip_address self of None \<Rightarrow> ''None'' | Some ip \<Rightarrow> ip))
          (case verify_ssl_arg of None \<Rightarrow> False | Some b \<Rightarrow> b)
          (case num_sec_arg of None \<Rightarrow> 300 | Some n \<Rightarrow> n)
          (case delay_arg of None \<Rightarrow> 5 | Some d \<Rightarrow> d) w w') \<and>
   (\<forall>w e w'.
      (wait_restart_bmc env self delay_arg num_sec_arg verify_ssl_arg w = Some (Inl e, w')) =
        bmc_wait_raised env
          (''https://'' @ (case ip_address self of None \<Rightarrow> ''None'' | Some ip \<Rightarrow> ip))
          (case verify_ssl_arg of None \<Rightarrow> False | Some b \<Rightarrow> b)
          (case num_sec_arg of None \<Rightarrow> 300 | Some n \<Rightarrow> n)
          (case delay_arg of None \<Rightarrow> 5 | Some d \<Rightarrow> d) e w w')"
proof (intro conjI allI impI)
  assume "0 < (case delay_arg of None \<Rightarrow> 5 | Some d \<Rightarrow> d)"
  then have "0 < param_default delay_arg 5" by (simp add: param_default_def)
  then show "returns (wait_restart_bmc env self delay_arg num_sec_arg verify_ssl_arg)"
    by (rule returns_wait_restart_bmc)
next
  fix w w'
  show "(wait_restart_bmc env self delay_arg num_sec_arg verify_ssl_arg w = Some (Inr (), w')) =
        bmc_restarted env
          (''https://'' @ (case ip_address self of None \<Rightarrow> ''None'' | Some ip \<Rightarrow> ip))
          (case verify_ssl_arg of None \<Rightarrow> False | Some b \<Rightarrow> b)
          (case num_sec_arg of None \<Rightarrow> 300 | Some n \<Rightarrow> n)
          (case delay_arg of None \<Rightarrow> 5 | Some d \<Rightarrow> d) w w'"
    unfolding wait_restart_bmc_Inr bmc_url_def param_default_def ..
next
  fix w e w'
  show "(wait_restart_bmc env self delay_arg num_sec_arg verify_ssl_arg w = Some (Inl e, w')) =
        bmc_wait_raised env
          (''https://'' @ (case ip_address self of None \<Rightarrow> ''None'' | Some ip \<Rightarrow> ip))
          (case verify_ssl_arg of None \<Rightarrow> False | Some b \<Rightarrow> b)
          (case num_sec_arg of None \<Rightarrow> 300 | Some n \<Rightarrow> n)
          (case delay_arg of None \<Rightarrow> 5 | Some d \<Rightarrow> d) e w w'"
    unfolding wait_restart_bmc_Inl bmc_url_def param_default_def ..
qed

lemma wait_restart_bmc_sample_run:
  "wait_restart_bmc sample_env srv1 None None None world0
     = Some (Inr (), restart_bmc_final_world)"
  by code_simp

theorem wait_restart_bmc_stops_then_starts_witness:
  "returns (wait_restart_bmc sample_env srv1 None None None) \<and>
   bmc_restarted sample_env ''https://10.0.0.1'' False 300 5 world0 restart_bmc_final_world"
proof -
  have pos: "(0::nat) < (case None of None \<Rightarrow> 5 | Some d \<Rightarrow> d)" by simp
  have url: "''https://'' @ (case ip_address srv1 of None \<Rightarrow> ''None'' | Some ip \<Rightarrow> ip)
      = ''https://10.0.0.1''"
    by code_simp
  note inst = wait_restart_bmc_stops_then_starts [of None sample_env srv1 None None]
  note run = inst [THEN conjunct2, THEN conjunct1, rule_format, THEN iffD1,
      OF wait_restart_bmc_sample_run]
  from inst [THEN conjunct1, rule_format, OF pos] run [unfolded url, simplified]
  show ?thesis by (rule conjI)
qed

section \<open>Properties of the power actions\<close>












end
